theory Spec2Isabelle
  imports Main "HOL-Library.Sublist"
begin

section \<open>Python strings\<close>

text \<open>
  A Python \<open>str\<close> is modelled as a \<open>string\<close>: one \<open>char\<close> per code point, for the code
  points below 256.  On that range \<open>str.lower\<close> moves \<open>A-Z\<close> and the upper-case Latin-1
  letters (0xC0-0xDE without the multiplication sign 0xD7) up by 32, and \<open>str.strip\<close>
  removes the twelve white-space code points listed in \<open>py_space\<close>.
\<close>

definition py_lower_char :: "char \<Rightarrow> char" where
  "py_lower_char c =
     (let n = (of_char c :: nat) in
      if (65 \<le> n \<and> n \<le> 90) \<or> (192 \<le> n \<and> n \<le> 222 \<and> n \<noteq> 215)
      then char_of (n + 32) else c)"

definition py_lower :: "string \<Rightarrow> string" where
  "py_lower s = map py_lower_char s"

definition py_space :: "char \<Rightarrow> bool" where
  "py_space c = ((of_char c :: nat) \<in> {9, 10, 11, 12, 13, 28, 29, 30, 31, 32, 133, 160})"

definition py_strip :: "string \<Rightarrow> string" where
  "py_strip s = rev (dropWhile py_space (rev (dropWhile py_space s)))"

text \<open>\<open>s.count(c)\<close> for a one-character \<open>c\<close>.\<close>

definition py_count :: "string \<Rightarrow> char \<Rightarrow> nat" where
  "py_count s c = length (filter (\<lambda>d. d = c) s)"

text \<open>\<open>s.split(c)[0]\<close> for a one-character \<open>c\<close>: the text before the first \<open>c\<close>.\<close>

definition py_split_first :: "char \<Rightarrow> string \<Rightarrow> string" where
  "py_split_first c s = takeWhile (\<lambda>d. d \<noteq> c) s"

text \<open>\<open>xs[:n]\<close>: a negative \<open>n\<close> counts from the end.\<close>

definition py_take :: "int \<Rightarrow> 'a list \<Rightarrow> 'a list" where
  "py_take n xs = (if 0 \<le> n then take (nat n) xs else take (nat (int (length xs) + n)) xs)"

text \<open>\<open>s.replace(old, '')\<close> for a non-empty \<open>old\<close>: every occurrence, left to right.\<close>

fun py_remove :: "string \<Rightarrow> string \<Rightarrow> string" where
  "py_remove old [] = []"
| "py_remove old (c # cs) =
     (if old \<noteq> [] \<and> prefix old (c # cs)
      then py_remove old (drop (length old - 1) cs)
      else c # py_remove old cs)"

section \<open>The browser, as the scraper sees it\<close>

text \<open>
  Every Playwright call can raise; \<open>Exception\<close> is \<open>error\<close>, carrying its message.
  The browser and the sites behind it are a state \<open>'w\<close> that every call may change,
  and \<open>'e\<close> is the type of element handles.  Nothing is assumed about either: a
  theorem about all \<open>pw\<close> and \<open>w\<close> holds whatever the sites serve and whichever calls fail.
\<close>

datatype error = Error string

record ('w, 'e) playwright =
  pw_start :: "'w \<Rightarrow> (error + unit) \<times> 'w"
  pw_stop :: "'w \<Rightarrow> (error + unit) \<times> 'w"
  pw_launch :: "string list \<Rightarrow> 'w \<Rightarrow> (error + unit) \<times> 'w"
  pw_new_context :: "string \<Rightarrow> 'w \<Rightarrow> (error + unit) \<times> 'w"
  pw_new_page :: "'w \<Rightarrow> (error + unit) \<times> 'w"
  pw_goto :: "string \<Rightarrow> 'w \<Rightarrow> (error + unit) \<times> 'w"
  pw_press :: "string \<Rightarrow> 'w \<Rightarrow> (error + unit) \<times> 'w"
  pw_content :: "'w \<Rightarrow> (error + string) \<times> 'w"
  pw_query_selector :: "string \<Rightarrow> 'w \<Rightarrow> (error + 'e option) \<times> 'w"
  pw_query_selector_all :: "string \<Rightarrow> 'w \<Rightarrow> (error + 'e list) \<times> 'w"
  pw_get_attribute :: "'e \<Rightarrow> string \<Rightarrow> 'w \<Rightarrow> (error + string option) \<times> 'w"
  pw_inner_text :: "'e \<Rightarrow> 'w \<Rightarrow> (error + string) \<times> 'w"
  pw_close :: "'w \<Rightarrow> (error + unit) \<times> 'w"
  pw_random :: "'w \<Rightarrow> nat \<times> 'w"

text \<open>
  What a run does is recorded as a list of events, in order: each browser call with
  whether it returned (\<open>True\<close>) or raised, and each line printed to stderr.  The
  two \<open>browser.close()\<close> statements of a scraper are told apart by where they stand.
  \<open>asyncio.sleep\<close> returns nothing and touches neither the browser nor the result;
  it is left out.
\<close>

datatype site = AfterLoop | InHandler

datatype call =
    Start | Stop | Launch "string list" | NewContext string | NewPage
  | Goto string | Press string | Content | Query string | QueryAll string
  | GetAttribute string | InnerText | Close site

datatype log =
    LogStart string string string int
  | LogUnknownPlatform string
  | LogSearching string string
  | LogFound string nat
  | LogScraping nat int string
  | LogScraped string string
  | LogErrorOn string error
  | LogError string error
  | LogScraperError string error

datatype event = Call call bool | Log log

type_synonym ('w, 'a) io = "'w \<Rightarrow> 'a \<times> 'w \<times> event list"

definition invoke :: "call \<Rightarrow> ('w \<Rightarrow> (error + 'a) \<times> 'w) \<Rightarrow> ('w, error + 'a) io" where
  "invoke c f w = (case f w of (r, w') \<Rightarrow> (r, w', [Call c (\<not> isl r)]))"

text \<open>Sequencing: an exception in the first part skips the second.\<close>

definition bind :: "('w, error + 'a) io \<Rightarrow> ('a \<Rightarrow> ('w, error + 'b) io) \<Rightarrow> ('w, error + 'b) io" where
  "bind m f w =
     (case m w of
        (Inl e, w1, t1) \<Rightarrow> (Inl e, w1, t1)
      | (Inr a, w1, t1) \<Rightarrow> (case f a w1 of (r, w2, t2) \<Rightarrow> (r, w2, t1 @ t2)))"

text \<open>A part that cannot raise, followed by the rest.\<close>

definition seq :: "('w, 'a) io \<Rightarrow> ('a \<Rightarrow> ('w, 'b) io) \<Rightarrow> ('w, 'b) io" where
  "seq m f w = (case m w of (a, w1, t1) \<Rightarrow> (case f a w1 of (r, w2, t2) \<Rightarrow> (r, w2, t1 @ t2)))"

definition print :: "log \<Rightarrow> ('w, unit) io" where
  "print m w = ((), w, [Log m])"

definition pure :: "'a \<Rightarrow> ('w, 'a) io" where
  "pure a w = (a, w, [])"

text \<open>\<open>try: m  except: pass\<close> (or \<open>continue\<close>): the exception is dropped.\<close>

definition attempt :: "('w, error + 'a) io \<Rightarrow> ('w, 'a option) io" where
  "attempt m w =
     (case m w of (Inl e, w1, t1) \<Rightarrow> (None, w1, t1) | (Inr a, w1, t1) \<Rightarrow> (Some a, w1, t1))"

text \<open>\<open>try: m  except Exception as e: h e\<close>.\<close>

definition try_except :: "('w, error + 'a) io \<Rightarrow> (error \<Rightarrow> ('w, 'a) io) \<Rightarrow> ('w, 'a) io" where
  "try_except m h w =
     (case m w of
        (Inr a, w1, t1) \<Rightarrow> (a, w1, t1)
      | (Inl e, w1, t1) \<Rightarrow> (case h e w1 of (a, w2, t2) \<Rightarrow> (a, w2, t1 @ t2)))"

text \<open>A part that cannot raise, used where one that can is expected.\<close>

definition ok :: "('w, 'a) io \<Rightarrow> ('w, error + 'a) io" where
  "ok m w = (case m w of (a, w1, t1) \<Rightarrow> (Inr a, w1, t1))"

definition start :: "('w, 'e) playwright \<Rightarrow> ('w, error + unit) io" where
  "start pw = invoke Start (pw_start pw)"

definition stop :: "('w, 'e) playwright \<Rightarrow> ('w, error + unit) io" where
  "stop pw = invoke Stop (pw_stop pw)"

definition launch :: "('w, 'e) playwright \<Rightarrow> string list \<Rightarrow> ('w, error + unit) io" where
  "launch pw args = invoke (Launch args) (pw_launch pw args)"

definition new_context :: "('w, 'e) playwright \<Rightarrow> string \<Rightarrow> ('w, error + unit) io" where
  "new_context pw agent = invoke (NewContext agent) (pw_new_context pw agent)"

definition new_page :: "('w, 'e) playwright \<Rightarrow> ('w, error + unit) io" where
  "new_page pw = invoke NewPage (pw_new_page pw)"

definition goto :: "('w, 'e) playwright \<Rightarrow> string \<Rightarrow> ('w, error + unit) io" where
  "goto pw url = invoke (Goto url) (pw_goto pw url)"

definition press :: "('w, 'e) playwright \<Rightarrow> string \<Rightarrow> ('w, error + unit) io" where
  "press pw key = invoke (Press key) (pw_press pw key)"

definition content :: "('w, 'e) playwright \<Rightarrow> ('w, error + string) io" where
  "content pw = invoke Content (pw_content pw)"

definition query_selector :: "('w, 'e) playwright \<Rightarrow> string \<Rightarrow> ('w, error + 'e option) io" where
  "query_selector pw sel = invoke (Query sel) (pw_query_selector pw sel)"

definition query_selector_all :: "('w, 'e) playwright \<Rightarrow> string \<Rightarrow> ('w, error + 'e list) io" where
  "query_selector_all pw sel = invoke (QueryAll sel) (pw_query_selector_all pw sel)"

definition get_attribute ::
  "('w, 'e) playwright \<Rightarrow> 'e \<Rightarrow> string \<Rightarrow> ('w, error + string option) io" where
  "get_attribute pw el name = invoke (GetAttribute name) (pw_get_attribute pw el name)"

definition inner_text :: "('w, 'e) playwright \<Rightarrow> 'e \<Rightarrow> ('w, error + string) io" where
  "inner_text pw el = invoke InnerText (pw_inner_text pw el)"

definition close :: "('w, 'e) playwright \<Rightarrow> site \<Rightarrow> ('w, error + unit) io" where
  "close pw at = invoke (Close at) (pw_close pw)"

section \<open>Profiles and the extractors\<close>

text \<open>
  The profile dict.  An extractor returns it without the key \<open>source\<close>, which the
  scraper adds before it appends the profile.
\<close>

record profile =
  fullName :: string
  email :: string
  bio :: string
  location :: string
  profileUrl :: string
  skills :: "string list"
  company :: string
  website :: string
  followers :: int
  repos :: int
  source :: "string option"

definition new_profile :: "string \<Rightarrow> profile" where
  "new_profile url =
     \<lparr>fullName = [], email = [], bio = [], location = [], profileUrl = url, skills = [],
      company = [], website = [], followers = 0, repos = 0, source = None\<rparr>"

text \<open>
  \<open>try: el = page.query_selector(sel); if el: text = el.inner_text().strip() ...
  except: ...\<close>: the stripped text of the first element the selector matches; nothing
  when there is no such element or a call raises.
\<close>

definition element_text :: "('w, 'e) playwright \<Rightarrow> string \<Rightarrow> ('w, string option) io" where
  "element_text pw sel =
     seq (attempt (bind (query_selector pw sel)
            (\<lambda>el. case el of
                    None \<Rightarrow> pure (Inr None)
                  | Some x \<Rightarrow> bind (inner_text pw x) (\<lambda>t. pure (Inr (Some (py_strip t)))))))
       (\<lambda>r. pure (case r of None \<Rightarrow> None | Some v \<Rightarrow> v))"

text \<open>
  The fallback chain of a field: \<open>for sel in sels: try: ... if <accept text>:
  field = text; break  except: continue\<close>.  The result is the accepted text, if any.
\<close>

fun first_text ::
  "('w, 'e) playwright \<Rightarrow> (string \<Rightarrow> bool) \<Rightarrow> string list \<Rightarrow> ('w, string option) io" where
  "first_text pw accept [] = pure None"
| "first_text pw accept (sel # sels) =
     seq (element_text pw sel)
       (\<lambda>r. case r of
               None \<Rightarrow> first_text pw accept sels
             | Some t \<Rightarrow> if accept t then pure (Some t) else first_text pw accept sels)"

text \<open>
  The skills loop of the GitHub and the Stack Overflow extractor:
  \<open>for el in els: skill = el.inner_text().strip(); if skill and skill not in seen:
  skills.append(skill); seen.add(skill)\<close>, with \<open>got\<close> for the list of skills.
  The enclosing \<open>try\<close> ends the loop at the first exception; what was appended stays.
\<close>

fun seen_loop ::
  "('w, 'e) playwright \<Rightarrow> 'e list \<Rightarrow> string list \<Rightarrow> string set \<Rightarrow> ('w, string list) io" where
  "seen_loop pw [] got seen = pure got"
| "seen_loop pw (el # els) got seen =
     seq (attempt (inner_text pw el))
       (\<lambda>r. case r of
               None \<Rightarrow> pure got
             | Some t \<Rightarrow>
                 (let skill = py_strip t in
                  if skill \<noteq> [] \<and> skill \<notin> seen
                  then seen_loop pw els (got @ [skill]) (insert skill seen)
                  else seen_loop pw els got seen))"

text \<open>The skills loop of the Behance extractor: no \<open>seen\<close> set, a length test instead.\<close>

fun behance_skills_loop ::
  "('w, 'e) playwright \<Rightarrow> 'e list \<Rightarrow> string list \<Rightarrow> ('w, string list) io" where
  "behance_skills_loop pw [] got = pure got"
| "behance_skills_loop pw (el # els) got =
     seq (attempt (inner_text pw el))
       (\<lambda>r. case r of
               None \<Rightarrow> pure got
             | Some t \<Rightarrow>
                 (let skill = py_strip t in
                  if skill \<noteq> [] \<and> length skill < 50
                  then behance_skills_loop pw els (got @ [skill])
                  else behance_skills_loop pw els got))"

definition text_or_empty :: "string option \<Rightarrow> string" where
  "text_or_empty r = (case r of None \<Rightarrow> [] | Some t \<Rightarrow> t)"

subsection \<open>GitHub\<close>

definition github_name :: "('w, 'e) playwright \<Rightarrow> ('w, string) io" where
  \<open>github_name pw =
     seq (first_text pw (\<lambda>t. t \<noteq> [] \<and> 1 < length t)
            [''span.p-name'', ''[itemprop="name"]'', ''h1.vcard-names span''])
       (\<lambda>r. let name = text_or_empty r in
             if name = []
             then seq (element_text pw ''span.p-nickname, .vcard-username'')
                    (\<lambda>u. pure (case u of None \<Rightarrow> name | Some t \<Rightarrow> t))
             else pure name)\<close>

definition github_skills :: "('w, 'e) playwright \<Rightarrow> ('w, string list) io" where
  \<open>github_skills pw =
     seq (attempt (query_selector_all pw
            ''[itemprop="programmingLanguage"], .repo-language-color + span''))
       (\<lambda>r. case r of None \<Rightarrow> pure [] | Some els \<Rightarrow> seen_loop pw els [] {})\<close>

definition extract_github_profile :: "('w, 'e) playwright \<Rightarrow> string \<Rightarrow> ('w, profile) io" where
  \<open>extract_github_profile pw profile_url =
     seq (github_name pw) (\<lambda>name.
     seq (first_text pw (\<lambda>t. t \<noteq> []) [''div.p-note'', ''.user-profile-bio'', ''[data-bio-text]'']) (\<lambda>b.
     seq (first_text pw (\<lambda>t. t \<noteq> [])
            [''[itemprop="homeLocation"]'', ''.p-label'', ''li[itemprop="homeLocation"] span'']) (\<lambda>l.
     seq (element_text pw ''[itemprop="worksFor"] span, .p-org'') (\<lambda>c.
     seq (github_skills pw) (\<lambda>sk.
     pure ((new_profile profile_url)
       \<lparr>fullName := name, bio := take 500 (text_or_empty b), location := text_or_empty l,
        skills := sk, company := text_or_empty c\<rparr>))))))\<close>

subsection \<open>Behance\<close>

definition behance_skills :: "('w, 'e) playwright \<Rightarrow> ('w, string list) io" where
  \<open>behance_skills pw =
     seq (attempt (query_selector_all pw ''[class*="field"], [class*="skill"]''))
       (\<lambda>r. case r of None \<Rightarrow> pure [] | Some els \<Rightarrow> behance_skills_loop pw (take 10 els) [])\<close>

definition extract_behance_profile :: "('w, 'e) playwright \<Rightarrow> string \<Rightarrow> ('w, profile) io" where
  \<open>extract_behance_profile pw profile_url =
     seq (first_text pw (\<lambda>t. t \<noteq> [] \<and> 1 < length t \<and> length t < 100)
            [''h1'', ''.e2e-Profile-userName'', ''[class*="userName"]'', ''.UserInfo-userName'']) (\<lambda>name.
     seq (first_text pw (\<lambda>t. t \<noteq> [] \<and> 10 < length t \<and> length t < 500)
            [''[class*="bio"]'', ''[class*="headline"]'', ''.UserInfo-bio'']) (\<lambda>b.
     seq (first_text pw (\<lambda>t. True)
            [''[class*="location"]'', ''[class*="Location"]'', ''.UserInfo-location'']) (\<lambda>l.
     seq (behance_skills pw) (\<lambda>sk.
     pure ((new_profile profile_url)
       \<lparr>fullName := text_or_empty name, bio := text_or_empty b, location := text_or_empty l,
        skills := sk\<rparr>)))))\<close>

subsection \<open>Stack Overflow\<close>

definition stackoverflow_skills :: "('w, 'e) playwright \<Rightarrow> ('w, string list) io" where
  \<open>stackoverflow_skills pw =
     seq (attempt (query_selector_all pw ''.s-tag, .post-tag, .tag''))
       (\<lambda>r. case r of None \<Rightarrow> pure [] | Some els \<Rightarrow> seen_loop pw (take 15 els) [] {})\<close>

definition extract_stackoverflow_profile ::
  "('w, 'e) playwright \<Rightarrow> string \<Rightarrow> ('w, profile) io" where
  \<open>extract_stackoverflow_profile pw profile_url =
     seq (first_text pw (\<lambda>t. t \<noteq> [] \<and> length t < 100)
            [''h1'', ''.fs-headline2'', ''[itemprop="name"]'', ''.user-card-name'']) (\<lambda>name.
     seq (element_text pw ''.js-about-me-content, .user-about-me'') (\<lambda>b.
     seq (element_text pw ''[itemprop="homeLocation"], .user-card-location'') (\<lambda>l.
     seq (stackoverflow_skills pw) (\<lambda>sk.
     pure ((new_profile profile_url)
       \<lparr>fullName := text_or_empty name, bio := take 500 (text_or_empty b),
        location := text_or_empty l, skills := sk\<rparr>)))))\<close>

subsection \<open>Dev.to\<close>

definition extract_devto_profile :: "('w, 'e) playwright \<Rightarrow> string \<Rightarrow> ('w, profile) io" where
  \<open>extract_devto_profile pw profile_url =
     seq (first_text pw (\<lambda>t. t \<noteq> [] \<and> 1 < length t \<and> length t < 100)
            [''h1'', ''.profile-header__name'', ''.crayons-title'', ''.profile-details h1'']) (\<lambda>name.
     seq (first_text pw (\<lambda>t. t \<noteq> [] \<and> 5 < length t)
            [''.profile-header__bio'', ''.profile-header__summary'', ''.profile-details p'']) (\<lambda>b.
     seq (element_text pw ''[class*="location"]'') (\<lambda>l.
     pure ((new_profile profile_url)
       \<lparr>fullName := text_or_empty name, bio := take 500 (text_or_empty b),
        location := text_or_empty l\<rparr>))))\<close>

section \<open>Discovery\<close>

text \<open>\<open>if full_url not in profile_urls and full_url not in existing_urls:
  profile_urls.append(full_url)\<close>, the same in all four scrapers.\<close>

definition add_url :: "string list \<Rightarrow> string \<Rightarrow> string list \<Rightarrow> string list" where
  "add_url existing_urls full_url profile_urls =
     (if full_url \<notin> set profile_urls \<and> full_url \<notin> set existing_urls
      then profile_urls @ [full_url] else profile_urls)"

subsection \<open>\<open>re.findall\<close> for the two href patterns\<close>

text \<open>The character class \<open>[a-zA-Z0-9_-]\<close>.\<close>

definition href_char :: "char \<Rightarrow> bool" where
  "href_char c =
     (let n = (of_char c :: nat) in
      (97 \<le> n \<and> n \<le> 122) \<or> (65 \<le> n \<and> n \<le> 90) \<or> (48 \<le> n \<and> n \<le> 57) \<or> n = 95 \<or> n = 45)"

text \<open>
  The pattern \<open>href="(LIT[a-zA-Z0-9_-]+)"\<close> tried at the start of \<open>s\<close>, for a literal
  \<open>LIT\<close>: the group and the text after the match.  The class has no double quote, so the
  longest run of class characters is the only one that the closing quote can follow.
\<close>

definition href_match :: "string \<Rightarrow> string \<Rightarrow> (string \<times> string) option" where
  \<open>href_match lit s =
     (let pre = ''href="'' @ lit in
      if prefix pre s
      then (let r = drop (length pre) s; run = takeWhile href_char r; after = dropWhile href_char r in
            if run \<noteq> [] \<and> after \<noteq> [] \<and> hd after = CHR 0x22 then Some (lit @ run, tl after)
            else None)
      else None)\<close>

lemma href_match_shorter: "href_match lit s = Some (g, rest) \<Longrightarrow> length rest < length s"
proof -
  assume a: "href_match lit s = Some (g, rest)"
  define pre where \<open>pre = ''href="'' @ lit\<close>
  define r where "r = drop (length pre) s"
  from a have p: "prefix pre s" and rest: "rest = tl (dropWhile href_char r)"
    and ne: "dropWhile href_char r \<noteq> []"
    by (auto simp: href_match_def Let_def pre_def r_def split: if_splits)
  have "length rest < length (dropWhile href_char r)"
    using ne rest by (cases "dropWhile href_char r") auto
  also have "\<dots> \<le> length r"
    by (rule length_dropWhile_le)
  also have "\<dots> \<le> length s"
    by (simp add: r_def)
  finally show ?thesis .
qed

text \<open>
  \<open>re.findall\<close> of that pattern: the groups of the leftmost matches, none overlapping;
  after a match the scan goes on behind it, otherwise one character further.
\<close>

function re_findall_href :: "string \<Rightarrow> string \<Rightarrow> string list" where
  "re_findall_href lit [] = []"
| "re_findall_href lit (c # cs) =
     (case href_match lit (c # cs) of
        Some (g, rest) \<Rightarrow> g # re_findall_href lit rest
      | None \<Rightarrow> re_findall_href lit cs)"
  by pat_completeness auto
termination
  by (relation "measure (\<lambda>(lit, s). length s)") (auto dest: href_match_shorter)

subsection \<open>GitHub\<close>

definition github_link :: "string list \<Rightarrow> string option \<Rightarrow> string list \<Rightarrow> string list" where
  "github_link existing_urls href profile_urls =
     (case href of
        None \<Rightarrow> profile_urls
      | Some h \<Rightarrow>
          if h \<noteq> [] \<and> prefix ''/'' h \<and> py_count h (CHR ''/'') = 1
          then add_url existing_urls (''https://github.com'' @ h) profile_urls
          else profile_urls)"

text \<open>\<open>for link in links\<close> under the selector's \<open>try\<close>: an exception ends the loop.\<close>

fun github_links ::
  "('w, 'e) playwright \<Rightarrow> string list \<Rightarrow> 'e list \<Rightarrow> string list \<Rightarrow> ('w, string list) io" where
  "github_links pw existing_urls [] profile_urls = pure profile_urls"
| "github_links pw existing_urls (link # links) profile_urls =
     seq (attempt (get_attribute pw link ''href''))
       (\<lambda>r. case r of
               None \<Rightarrow> pure profile_urls
             | Some href \<Rightarrow>
                 github_links pw existing_urls links (github_link existing_urls href profile_urls))"

fun github_selectors ::
  "('w, 'e) playwright \<Rightarrow> string list \<Rightarrow> string list \<Rightarrow> string list \<Rightarrow> ('w, string list) io" where
  "github_selectors pw existing_urls [] profile_urls = pure profile_urls"
| "github_selectors pw existing_urls (selector # selectors) profile_urls =
     seq (attempt (query_selector_all pw selector))
       (\<lambda>r. case r of
               None \<Rightarrow> github_selectors pw existing_urls selectors profile_urls
             | Some links \<Rightarrow>
                 seq (github_links pw existing_urls links profile_urls)
                   (github_selectors pw existing_urls selectors))"

definition github_skip_paths :: "string list" where
  "github_skip_paths =
     [''search'', ''explore'', ''marketplace'', ''features'', ''pricing'', ''login'',
      ''signup'', ''join'', ''settings'', ''notifications'', ''about'']"

definition github_match :: "string list \<Rightarrow> string list \<Rightarrow> string \<Rightarrow> string list" where
  "github_match existing_urls profile_urls m =
     (if py_count m (CHR ''/'') = 1
      then (let path = drop 1 m in
            if path \<noteq> [] \<and> 1 < length path \<and> py_lower path \<notin> set github_skip_paths
            then add_url existing_urls (''https://github.com'' @ m) profile_urls
            else profile_urls)
      else profile_urls)"

definition github_selector_list :: "string list" where
  \<open>github_selector_list =
     [''a[data-hovercard-type="user"]'', ''div[data-testid="results-list"] a'',
      ''.user-list-item a'', ''a.Link--primary'']\<close>

text \<open>Lines 78 to 113: the selectors, then the scan of the markup if they gave fewer than 3.\<close>

definition github_discover ::
  "('w, 'e) playwright \<Rightarrow> string list \<Rightarrow> ('w, error + string list) io" where
  "github_discover pw existing_urls =
     bind (ok (github_selectors pw existing_urls github_selector_list []))
       (\<lambda>profile_urls.
          if length profile_urls < 3
          then bind (content pw)
                 (\<lambda>c. pure (Inr (foldl (github_match existing_urls) profile_urls
                                    (re_findall_href ''/'' c))))
          else pure (Inr profile_urls))"

subsection \<open>Behance\<close>

definition behance_skip_paths :: "string list" where
  "behance_skip_paths =
     [''search'', ''galleries'', ''joblist'', ''adobe'', ''features'', ''assets'',
      ''onboarding'', ''hire'', ''login'', ''signup'', ''privacy'', ''tos'', ''help'',
      ''feedback'', ''misc'', ''about'', ''careers'', ''gallery'']"

definition behance_match :: "string list \<Rightarrow> string list \<Rightarrow> string \<Rightarrow> string list" where
  "behance_match existing_urls profile_urls m =
     (let path = py_split_first (CHR ''?'')
                   (py_split_first (CHR ''/'') (py_remove ''https://www.behance.net/'' m)) in
      if path \<noteq> [] \<and> 2 < length path \<and> py_lower path \<notin> set behance_skip_paths \<and>
         \<not> prefix ''gallery'' path \<and> m \<notin> set profile_urls \<and> m \<notin> set existing_urls
      then profile_urls @ [m] else profile_urls)"

text \<open>Lines 256 to 271: the markup is scanned at once; there is no selector.\<close>

definition behance_discover ::
  "('w, 'e) playwright \<Rightarrow> string list \<Rightarrow> ('w, error + string list) io" where
  "behance_discover pw existing_urls =
     bind (content pw)
       (\<lambda>c. pure (Inr (foldl (behance_match existing_urls) []
                          (re_findall_href ''https://www.behance.net/'' c))))"

subsection \<open>Stack Overflow\<close>

definition digit :: "char \<Rightarrow> bool" where
  "digit c = (48 \<le> (of_char c :: nat) \<and> (of_char c :: nat) \<le> 57)"

text \<open>
  \<open>/users/\d+/\<close> (for \<open>slash\<close>) or \<open>/users/\d+$\<close> at the start of \<open>s\<close>; \<open>$\<close> is the end of
  the string or the place before a last line feed.
\<close>

definition users_here :: "bool \<Rightarrow> string \<Rightarrow> bool" where
  "users_here slash s =
     (prefix ''/users/'' s \<and>
      (let r = drop 7 s; after = dropWhile digit r in
       takeWhile digit r \<noteq> [] \<and>
       (if slash then after \<noteq> [] \<and> hd after = CHR ''/'' else after = [] \<or> after = [CHR 0x0A])))"

text \<open>
  \<open>re.match(r'.*/users/\d+/.*', s)\<close> (for \<open>slash\<close>) and \<open>re.match(r'.*/users/\d+$', s)\<close>:
  the leading \<open>.*\<close> passes any characters but a line feed.
\<close>

fun re_match_users :: "bool \<Rightarrow> string \<Rightarrow> bool" where
  "re_match_users slash [] = False"
| "re_match_users slash (c # cs) =
     (users_here slash (c # cs) \<or> (c \<noteq> CHR 0x0A \<and> re_match_users slash cs))"

definition stackoverflow_link :: "string list \<Rightarrow> string option \<Rightarrow> string list \<Rightarrow> string list" where
  "stackoverflow_link existing_urls href profile_urls =
     (case href of
        None \<Rightarrow> profile_urls
      | Some h \<Rightarrow>
          if h \<noteq> [] \<and> sublist ''/users/'' h
          then (let full_url = (if prefix ''http'' h then h else ''https://stackoverflow.com'' @ h) in
                if re_match_users True full_url \<or> re_match_users False full_url
                then add_url existing_urls full_url profile_urls
                else profile_urls)
          else profile_urls)"

text \<open>\<open>for link in links\<close>, lines 394 to 400: no \<open>try\<close> here, an exception leaves the loop
  and the scrape.\<close>

fun stackoverflow_links ::
  "('w, 'e) playwright \<Rightarrow> string list \<Rightarrow> 'e list \<Rightarrow> string list \<Rightarrow> ('w, error + string list) io"
  where
  "stackoverflow_links pw existing_urls [] profile_urls = pure (Inr profile_urls)"
| "stackoverflow_links pw existing_urls (link # links) profile_urls =
     bind (get_attribute pw link ''href'')
       (\<lambda>href. stackoverflow_links pw existing_urls links
                  (stackoverflow_link existing_urls href profile_urls))"

definition stackoverflow_discover ::
  "('w, 'e) playwright \<Rightarrow> string list \<Rightarrow> ('w, error + string list) io" where
  \<open>stackoverflow_discover pw existing_urls =
     bind (query_selector_all pw ''a[href*="/users/"]'')
       (\<lambda>links. stackoverflow_links pw existing_urls links [])\<close>

subsection \<open>Dev.to\<close>

definition devto_skip :: "string list" where
  "devto_skip =
     [''search'', ''top'', ''latest'', ''settings'', ''enter'', ''signout'', ''signin'',
      ''notifications'', ''reading'', ''new'', ''tags'', ''about'', ''t'', ''html'', ''css'',
      ''javascript'', ''python'', ''webdev'', ''react'']"

definition devto_link :: "string list \<Rightarrow> string option \<Rightarrow> string list \<Rightarrow> string list" where
  "devto_link existing_urls href profile_urls =
     (case href of
        None \<Rightarrow> profile_urls
      | Some h \<Rightarrow>
          if h \<noteq> [] \<and> prefix ''/'' h \<and> py_count h (CHR ''/'') = 1
          then (let path = drop 1 h in
                if path \<noteq> [] \<and> 2 < length path \<and> py_lower path \<notin> set devto_skip
                then add_url existing_urls (''https://dev.to'' @ h) profile_urls
                else profile_urls)
          else profile_urls)"

text \<open>\<open>for link in author_links\<close>, lines 516 to 529: each link under its own \<open>try\<close>.\<close>

fun devto_links ::
  "('w, 'e) playwright \<Rightarrow> string list \<Rightarrow> 'e list \<Rightarrow> string list \<Rightarrow> ('w, string list) io" where
  "devto_links pw existing_urls [] profile_urls = pure profile_urls"
| "devto_links pw existing_urls (link # links) profile_urls =
     seq (attempt (get_attribute pw link ''href''))
       (\<lambda>r. devto_links pw existing_urls links
               (case r of None \<Rightarrow> profile_urls | Some href \<Rightarrow> devto_link existing_urls href profile_urls))"

definition devto_discover ::
  "('w, 'e) playwright \<Rightarrow> string list \<Rightarrow> ('w, error + string list) io" where
  \<open>devto_discover pw existing_urls =
     bind (query_selector_all pw ''a[href^="/"][class*="author"], .crayons-story__secondary a'')
       (\<lambda>author_links. ok (devto_links pw existing_urls author_links []))\<close>

section \<open>The scrapers\<close>

definition USER_AGENTS :: "string list" where
  "USER_AGENTS =
     [''Mozilla/5.0 (Windows NT 10.0; Win64; x64) AppleWebKit/537.36 (KHTML, like Gecko) Chrome/120.0.0.0 Safari/537.36'',
      ''Mozilla/5.0 (Macintosh; Intel Mac OS X 10_15_7) AppleWebKit/537.36 (KHTML, like Gecko) Chrome/120.0.0.0 Safari/537.36'',
      ''Mozilla/5.0 (Windows NT 10.0; Win64; x64; rv:121.0) Gecko/20100101 Firefox/121.0'']"

text \<open>\<open>random.choice(USER_AGENTS)\<close>: the browser state also stands for the random source.\<close>

definition choose_agent :: "('w, 'e) playwright \<Rightarrow> ('w, string) io" where
  "choose_agent pw w = (case pw_random pw w of (k, w1) \<Rightarrow> (USER_AGENTS ! (k mod 3), w1, []))"

text \<open>\<open>context = browser.new_context(user_agent=random.choice(USER_AGENTS), ...);
  page = context.new_page()\<close>, the same in all four scrapers.\<close>

definition open_page :: "('w, 'e) playwright \<Rightarrow> ('w, error + unit) io" where
  "open_page pw = bind (ok (choose_agent pw)) (\<lambda>agent. bind (new_context pw agent) (\<lambda>_. new_page pw))"

text \<open>\<open>for _ in range(3): page.keyboard.press('End')\<close>.\<close>

definition scroll :: "('w, 'e) playwright \<Rightarrow> ('w, error + unit) io" where
  "scroll pw = bind (press pw ''End'') (\<lambda>_. bind (press pw ''End'') (\<lambda>_. press pw ''End''))"

subsection \<open>The two loops over the profile URLs\<close>

text \<open>
  \<open>for i, profile_url in enumerate(urls): <body>\<close>, as in the GitHub and the Stack
  Overflow scraper, where \<open>urls\<close> is \<open>profile_urls[:max_profiles]\<close>.  The body is one
  \<open>try\<close> statement that catches every exception; it yields the profile it appended, if
  any.
\<close>

fun for_each ::
  "(nat \<Rightarrow> string \<Rightarrow> ('w, profile option) io) \<Rightarrow> nat \<Rightarrow> string list \<Rightarrow> profile list
     \<Rightarrow> ('w, profile list) io" where
  "for_each body i [] profiles = pure profiles"
| "for_each body i (profile_url # urls) profiles =
     seq (body i profile_url)
       (\<lambda>r. for_each body (Suc i) urls (case r of None \<Rightarrow> profiles | Some p \<Rightarrow> profiles @ [p]))"

text \<open>
  \<open>for profile_url in profile_urls: if scraped >= max_profiles: break  <body>\<close>, as in
  the Behance and the Dev.to scraper; the body adds 1 to \<open>scraped\<close> when it appends.
\<close>

fun until_scraped ::
  "(string \<Rightarrow> ('w, profile option) io) \<Rightarrow> int \<Rightarrow> string list \<Rightarrow> int \<Rightarrow> profile list
     \<Rightarrow> ('w, profile list) io" where
  "until_scraped body max_profiles [] scraped profiles = pure profiles"
| "until_scraped body max_profiles (profile_url # urls) scraped profiles =
     (if scraped \<ge> max_profiles then pure profiles
      else seq (body profile_url)
             (\<lambda>r. case r of
                     None \<Rightarrow> until_scraped body max_profiles urls scraped profiles
                   | Some p \<Rightarrow> until_scraped body max_profiles urls (scraped + 1) (profiles @ [p])))"

subsection \<open>The session\<close>

text \<open>
  The \<open>except Exception as e\<close> of a scraper: the line on stderr, then
  \<open>if browser: browser.close()\<close>, unguarded, then the \<open>return profiles\<close> behind the
  \<open>try\<close> statement.
\<close>

definition handler ::
  "('w, 'e) playwright \<Rightarrow> (error \<Rightarrow> log) \<Rightarrow> error \<Rightarrow> bool \<Rightarrow> profile list
     \<Rightarrow> ('w, error + profile list) io" where
  "handler pw line e browser profiles =
     bind (ok (print (line e)))
       (\<lambda>_. if browser then bind (close pw InHandler) (\<lambda>_. pure (Inr profiles))
             else pure (Inr profiles))"

text \<open>
  The block under \<open>async with async_playwright() as p\<close>: the launch, the work on the
  page, \<open>browser.close()\<close>.  It yields the exception that left it, if any, whether
  \<open>browser\<close> was assigned, and \<open>profiles\<close>.  The work raises only before its loop, when
  \<open>profiles\<close> is still empty.
\<close>

definition session ::
  "('w, 'e) playwright \<Rightarrow> string list \<Rightarrow> ('w, error + profile list) io
     \<Rightarrow> ('w, error option \<times> bool \<times> profile list) io" where
  "session pw args work w =
     (case launch pw args w of
        (Inl e, w1, t1) \<Rightarrow> ((Some e, False, []), w1, t1)
      | (Inr _, w1, t1) \<Rightarrow>
          (case work w1 of
             (Inl e, w2, t2) \<Rightarrow> ((Some e, True, []), w2, t1 @ t2)
           | (Inr profiles, w2, t2) \<Rightarrow>
               (case close pw AfterLoop w2 of
                  (Inl e, w3, t3) \<Rightarrow> ((Some e, True, profiles), w3, t1 @ t2 @ t3)
                | (Inr _, w3, t3) \<Rightarrow> ((None, True, profiles), w3, t1 @ t2 @ t3))))"

text \<open>
  The body of a scraper.  Entering \<open>async with\<close> starts Playwright; leaving it, with or
  without an exception, stops it, and an exception of the stop replaces the one under
  way.  All of this stands in the \<open>try\<close>.
\<close>

definition scrape_with ::
  "('w, 'e) playwright \<Rightarrow> (error \<Rightarrow> log) \<Rightarrow> string list \<Rightarrow> ('w, error + profile list) io
     \<Rightarrow> ('w, error + profile list) io" where
  "scrape_with pw line args work w =
     (case start pw w of
        (Inl e, w1, t1) \<Rightarrow>
          (case handler pw line e False [] w1 of (r, w2, t2) \<Rightarrow> (r, w2, t1 @ t2))
      | (Inr _, w1, t1) \<Rightarrow>
          (case session pw args work w1 of
             ((raised, browser, profiles), w2, t2) \<Rightarrow>
               (case stop pw w2 of
                  (stopped, w3, t3) \<Rightarrow>
                    (case (case stopped of Inl e \<Rightarrow> Some e | Inr _ \<Rightarrow> raised) of
                       None \<Rightarrow> (Inr profiles, w3, t1 @ t2 @ t3)
                     | Some e \<Rightarrow>
                         (case handler pw line e browser profiles w3 of
                            (r, w4, t4) \<Rightarrow> (r, w4, t1 @ t2 @ t3 @ t4))))))"

subsection \<open>GitHub\<close>

definition github_search_url :: "string \<Rightarrow> string \<Rightarrow> string" where
  "github_search_url query loc =
     ''https://github.com/search?q=type%3Auser+location%3A'' @ loc @ ''+'' @ query @ ''&type=users''"

definition github_visit ::
  "('w, 'e) playwright \<Rightarrow> int \<Rightarrow> nat \<Rightarrow> string \<Rightarrow> ('w, profile option) io" where
  "github_visit pw n i profile_url =
     try_except
       (bind (ok (print (LogScraping (i + 1) n profile_url))) (\<lambda>_.
        bind (goto pw profile_url) (\<lambda>_.
        bind (ok (extract_github_profile pw profile_url)) (\<lambda>p.
          if fullName p \<noteq> []
          then bind (ok (print (LogScraped ''GitHub'' (fullName p))))
                 (\<lambda>_. pure (Inr (Some (p\<lparr>source := Some ''GitHub''\<rparr>))))
          else pure (Inr None)))))
       (\<lambda>e. seq (print (LogErrorOn profile_url e)) (\<lambda>_. pure None))"

definition github_work ::
  "('w, 'e) playwright \<Rightarrow> string \<Rightarrow> string \<Rightarrow> int \<Rightarrow> string list
     \<Rightarrow> ('w, error + profile list) io" where
  "github_work pw query loc max_profiles existing_urls =
     bind (open_page pw) (\<lambda>_.
     bind (ok (print (LogSearching ''GitHub'' (github_search_url query loc)))) (\<lambda>_.
     bind (goto pw (github_search_url query loc)) (\<lambda>_.
     bind (github_discover pw existing_urls) (\<lambda>profile_urls.
     bind (ok (print (LogFound ''GitHub'' (length profile_urls)))) (\<lambda>_.
     ok (for_each (github_visit pw (min (int (length profile_urls)) max_profiles)) 0
           (py_take max_profiles profile_urls) []))))))"

definition scrape_github_profiles ::
  "('w, 'e) playwright \<Rightarrow> string \<Rightarrow> string \<Rightarrow> int \<Rightarrow> string list
     \<Rightarrow> ('w, error + profile list) io" where
  "scrape_github_profiles pw query loc max_profiles existing_urls =
     scrape_with pw (LogScraperError ''GitHub'') [''--no-sandbox'', ''--disable-dev-shm-usage'']
       (github_work pw query loc max_profiles existing_urls)"

subsection \<open>Behance\<close>

definition behance_search_url :: "string \<Rightarrow> string \<Rightarrow> string" where
  "behance_search_url query loc =
     ''https://www.behance.net/search/users?search='' @ query @ ''%20'' @ loc"

definition behance_visit :: "('w, 'e) playwright \<Rightarrow> string \<Rightarrow> ('w, profile option) io" where
  "behance_visit pw profile_url =
     try_except
       (bind (goto pw profile_url) (\<lambda>_.
        bind (ok (extract_behance_profile pw profile_url)) (\<lambda>p.
          if fullName p \<noteq> []
          then bind (ok (print (LogScraped ''Behance'' (fullName p))))
                 (\<lambda>_. pure (Inr (Some (p\<lparr>source := Some ''Behance''\<rparr>))))
          else pure (Inr None))))
       (\<lambda>e. seq (print (LogError ''Behance'' e)) (\<lambda>_. pure None))"

definition behance_work ::
  "('w, 'e) playwright \<Rightarrow> string \<Rightarrow> string \<Rightarrow> int \<Rightarrow> string list
     \<Rightarrow> ('w, error + profile list) io" where
  "behance_work pw query loc max_profiles existing_urls =
     bind (open_page pw) (\<lambda>_.
     bind (ok (print (LogSearching ''Behance'' (behance_search_url query loc)))) (\<lambda>_.
     bind (goto pw (behance_search_url query loc)) (\<lambda>_.
     bind (scroll pw) (\<lambda>_.
     bind (behance_discover pw existing_urls) (\<lambda>profile_urls.
     bind (ok (print (LogFound ''Behance'' (length profile_urls)))) (\<lambda>_.
     ok (until_scraped (behance_visit pw) max_profiles profile_urls 0 [])))))))"

definition scrape_behance_profiles ::
  "('w, 'e) playwright \<Rightarrow> string \<Rightarrow> string \<Rightarrow> int \<Rightarrow> string list
     \<Rightarrow> ('w, error + profile list) io" where
  "scrape_behance_profiles pw query loc max_profiles existing_urls =
     scrape_with pw (LogScraperError ''Behance'') [''--no-sandbox'']
       (behance_work pw query loc max_profiles existing_urls)"

subsection \<open>Stack Overflow\<close>

definition stackoverflow_search_url :: string where
  "stackoverflow_search_url = ''https://stackoverflow.com/users?tab=reputation&filter=all''"

definition stackoverflow_visit ::
  "('w, 'e) playwright \<Rightarrow> nat \<Rightarrow> string \<Rightarrow> ('w, profile option) io" where
  "stackoverflow_visit pw i profile_url =
     try_except
       (bind (goto pw profile_url) (\<lambda>_.
        bind (ok (extract_stackoverflow_profile pw profile_url)) (\<lambda>p.
          if fullName p \<noteq> []
          then bind (ok (print (LogScraped ''StackOverflow'' (fullName p))))
                 (\<lambda>_. pure (Inr (Some (p\<lparr>source := Some ''Stack Overflow''\<rparr>))))
          else pure (Inr None))))
       (\<lambda>e. seq (print (LogError ''StackOverflow'' e)) (\<lambda>_. pure None))"

definition stackoverflow_work ::
  "('w, 'e) playwright \<Rightarrow> string \<Rightarrow> string \<Rightarrow> int \<Rightarrow> string list
     \<Rightarrow> ('w, error + profile list) io" where
  "stackoverflow_work pw query loc max_profiles existing_urls =
     bind (open_page pw) (\<lambda>_.
     bind (ok (print (LogSearching ''StackOverflow'' stackoverflow_search_url))) (\<lambda>_.
     bind (goto pw stackoverflow_search_url) (\<lambda>_.
     bind (stackoverflow_discover pw existing_urls) (\<lambda>profile_urls.
     bind (ok (print (LogFound ''StackOverflow'' (length profile_urls)))) (\<lambda>_.
     ok (for_each (stackoverflow_visit pw) 0 (py_take max_profiles profile_urls) []))))))"

definition scrape_stackoverflow_profiles ::
  "('w, 'e) playwright \<Rightarrow> string \<Rightarrow> string \<Rightarrow> int \<Rightarrow> string list
     \<Rightarrow> ('w, error + profile list) io" where
  "scrape_stackoverflow_profiles pw query loc max_profiles existing_urls =
     scrape_with pw (LogError ''StackOverflow'') [''--no-sandbox'']
       (stackoverflow_work pw query loc max_profiles existing_urls)"

subsection \<open>Dev.to\<close>

definition devto_url :: string where
  "devto_url = ''https://dev.to/''"

definition devto_visit :: "('w, 'e) playwright \<Rightarrow> string \<Rightarrow> ('w, profile option) io" where
  "devto_visit pw profile_url =
     try_except
       (bind (goto pw profile_url) (\<lambda>_.
        bind (query_selector pw ''.profile-header, .crayons-card--profile, .profile-details'')
          (\<lambda>profile_check.
             case profile_check of
               None \<Rightarrow> pure (Inr None)
             | Some _ \<Rightarrow>
                 bind (ok (extract_devto_profile pw profile_url)) (\<lambda>p.
                   if fullName p \<noteq> []
                   then bind (ok (print (LogScraped ''Dev.to'' (fullName p))))
                          (\<lambda>_. pure (Inr (Some (p\<lparr>source := Some ''Dev.to''\<rparr>))))
                   else pure (Inr None)))))
       (\<lambda>e. seq (print (LogError ''Dev.to'' e)) (\<lambda>_. pure None))"

definition devto_work ::
  "('w, 'e) playwright \<Rightarrow> string \<Rightarrow> int \<Rightarrow> string list \<Rightarrow> ('w, error + profile list) io" where
  "devto_work pw query max_profiles existing_urls =
     bind (open_page pw) (\<lambda>_.
     bind (goto pw devto_url) (\<lambda>_.
     bind (scroll pw) (\<lambda>_.
     bind (devto_discover pw existing_urls) (\<lambda>profile_urls.
     bind (ok (print (LogFound ''Dev.to'' (length profile_urls)))) (\<lambda>_.
     ok (until_scraped (devto_visit pw) max_profiles profile_urls 0 []))))))"

definition scrape_devto_profiles ::
  "('w, 'e) playwright \<Rightarrow> string \<Rightarrow> int \<Rightarrow> string list \<Rightarrow> ('w, error + profile list) io" where
  "scrape_devto_profiles pw query max_profiles existing_urls =
     scrape_with pw (LogError ''Dev.to'') [''--no-sandbox'']
       (devto_work pw query max_profiles existing_urls)"

subsection \<open>The dispatcher\<close>

definition scrape_profiles ::
  "('w, 'e) playwright \<Rightarrow> string \<Rightarrow> string \<Rightarrow> string \<Rightarrow> int \<Rightarrow> string list
     \<Rightarrow> ('w, error + profile list) io" where
  "scrape_profiles pw platform query loc max_profiles existing_urls =
     (let platform = py_lower platform in
      seq (print (LogStart platform query loc max_profiles))
        (\<lambda>_. if platform = ''github''
              then scrape_github_profiles pw query loc max_profiles existing_urls
              else if platform = ''behance''
              then scrape_behance_profiles pw query loc max_profiles existing_urls
              else if platform = ''stackoverflow''
              then scrape_stackoverflow_profiles pw query loc max_profiles existing_urls
              else if platform = ''devto''
              then scrape_devto_profiles pw query max_profiles existing_urls
              else seq (print (LogUnknownPlatform platform)) (\<lambda>_. pure (Inr []))))"

section \<open>Sites to run the scrapers on\<close>

text \<open>
  A static site: a table from URLs to pages.  The state is the page the browser is on.
  Navigating to a URL the table lacks raises; every \<open>query_selector\<close> gives the page's
  heading, every \<open>query_selector_all\<close> its items; an element is its own text and its own
  \<open>href\<close>.
\<close>

record page =
  heading :: "string option"
  items :: "string list"
  markup :: string

definition site :: "(string \<times> page) list \<Rightarrow> (page, string) playwright" where
  "site pages =
     \<lparr>pw_start = (\<lambda>w. (Inr (), w)),
      pw_stop = (\<lambda>w. (Inr (), w)),
      pw_launch = (\<lambda>args w. (Inr (), w)),
      pw_new_context = (\<lambda>agent w. (Inr (), w)),
      pw_new_page = (\<lambda>w. (Inr (), w)),
      pw_goto = (\<lambda>url w. case map_of pages url of
                             None \<Rightarrow> (Inl (Error ''Timeout 20000ms exceeded''), w)
                           | Some pg \<Rightarrow> (Inr (), pg)),
      pw_press = (\<lambda>key w. (Inr (), w)),
      pw_content = (\<lambda>w. (Inr (markup w), w)),
      pw_query_selector = (\<lambda>sel w. (Inr (heading w), w)),
      pw_query_selector_all = (\<lambda>sel w. (Inr (items w), w)),
      pw_get_attribute = (\<lambda>el name w. (Inr (Some el), w)),
      pw_inner_text = (\<lambda>el w. (Inr el, w)),
      pw_close = (\<lambda>w. (Inr (), w)),
      pw_random = (\<lambda>w. (0, w))\<rparr>"

definition blank :: page where
  "blank = \<lparr>heading = None, items = [], markup = []\<rparr>"

text \<open>The same site with a browser whose \<open>close\<close> raises.\<close>

definition stuck :: "(string \<times> page) list \<Rightarrow> (page, string) playwright" where
  "stuck pages = (site pages)\<lparr>pw_close := (\<lambda>w. (Inl (Error ''Target closed''), w))\<rparr>"

text \<open>
  GitHub with three users in the search result for \<open>fullstack\<close> in \<open>India\<close>; the page
  of the first one does not load.
\<close>

definition github_pages :: "(string \<times> page) list" where
  "github_pages =
     [(github_search_url ''fullstack'' ''India'',
         \<lparr>heading = None, items = [''/alice'', ''/bob'', ''/carol''], markup = []\<rparr>),
      (''https://github.com/bob'',
         \<lparr>heading = Some ''Bob'', items = [''Go'', ''Rust'', ''Go''], markup = []\<rparr>),
      (''https://github.com/carol'',
         \<lparr>heading = Some ''Carol'', items = [], markup = []\<rparr>)]"

text \<open>Behance likewise: three designers in the markup, the first page does not load.\<close>

definition behance_pages :: "(string \<times> page) list" where
  \<open>behance_pages =
     [(behance_search_url ''fullstack'' ''India'',
         \<lparr>heading = None, items = [],
          markup = ''<a href="https://www.behance.net/alice"><a href="https://www.behance.net/bob"><a href="https://www.behance.net/carol">''\<rparr>),
      (''https://www.behance.net/bob'',
         \<lparr>heading = Some ''Bob'', items = [''Design'', ''Design''], markup = []\<rparr>),
      (''https://www.behance.net/carol'',
         \<lparr>heading = Some ''Carol'', items = [], markup = []\<rparr>)]\<close>

text \<open>
  Stack Overflow with a listing in which the selector finds no profile link, though the
  markup has one; Dev.to with one author.
\<close>

definition stackoverflow_pages :: "(string \<times> page) list" where
  \<open>stackoverflow_pages =
     [(stackoverflow_search_url,
         \<lparr>heading = None, items = [''/questions''], markup = ''<a href="/users/1/x">''\<rparr>)]\<close>

definition devto_pages :: "(string \<times> page) list" where
  "devto_pages =
     [(devto_url, \<lparr>heading = None, items = [''/dave''], markup = []\<rparr>),
      (''https://dev.to/dave'', \<lparr>heading = Some ''Dave'', items = [''css'', ''css''], markup = []\<rparr>)]"

text \<open>A GitHub result page on which the selectors find one user and the markup has four links.\<close>

definition sparse :: page where
  \<open>sparse = \<lparr>heading = None, items = [''/alice''],
              markup = ''<a href="/settings"><a href="/bob"><a href="/x"><a href="/alice">''\<rparr>\<close>

text \<open>
  One page that never changes: every \<open>query_selector\<close> gives the heading \<open>h\<close>, every
  \<open>query_selector_all\<close> the elements \<open>els\<close>, and no call raises.
\<close>

definition still :: "string option \<Rightarrow> string list \<Rightarrow> (unit, string) playwright" where
  "still h els =
     \<lparr>pw_start = (\<lambda>w. (Inr (), w)),
      pw_stop = (\<lambda>w. (Inr (), w)),
      pw_launch = (\<lambda>args w. (Inr (), w)),
      pw_new_context = (\<lambda>agent w. (Inr (), w)),
      pw_new_page = (\<lambda>w. (Inr (), w)),
      pw_goto = (\<lambda>url w. (Inr (), w)),
      pw_press = (\<lambda>key w. (Inr (), w)),
      pw_content = (\<lambda>w. (Inr [], w)),
      pw_query_selector = (\<lambda>sel w. (Inr h, w)),
      pw_query_selector_all = (\<lambda>sel w. (Inr els, w)),
      pw_get_attribute = (\<lambda>el name w. (Inr (Some el), w)),
      pw_inner_text = (\<lambda>el w. (Inr el, w)),
      pw_close = (\<lambda>w. (Inr (), w)),
      pw_random = (\<lambda>w. (0, w))\<rparr>"

text \<open>Five language badges: one twice, one padded with blanks, one empty.\<close>

definition languages :: "string list" where
  "languages = [''Go'', '' Rust '', ''Go'', [], ''C'']"

text \<open>Sixteen languages, more than either cap of 10 and 15.\<close>

definition sixteen :: "string list" where
  "sixteen = [''Ada'', ''Bash'', ''C'', ''Dart'', ''Elixir'', ''Go'', ''Haskell'', ''Java'',
              ''Kotlin'', ''Lua'', ''OCaml'', ''Perl'', ''Python'', ''Ruby'', ''Rust'', ''Scala'']"

text \<open>The candidates of \<open>github_pages\<close> and of \<open>behance_pages\<close>.\<close>

definition three_github :: "string list" where
  "three_github = [''https://github.com/alice'', ''https://github.com/bob'',
                   ''https://github.com/carol'']"

definition three_behance :: "string list" where
  "three_behance = [''https://www.behance.net/alice'', ''https://www.behance.net/bob'',
                    ''https://www.behance.net/carol'']"

text \<open>The profiles these sites give.\<close>

definition bob :: profile where
  "bob = \<lparr>fullName = ''Bob'', email = [], bio = [], location = ''Bob'',
          profileUrl = ''https://www.behance.net/bob'',
          skills = [''Design'', ''Design''], company = [], website = [],
          followers = 0, repos = 0, source = Some ''Behance''\<rparr>"

definition github_bob :: profile where
  "github_bob = \<lparr>fullName = ''Bob'', email = [], bio = ''Bob'', location = ''Bob'',
          profileUrl = ''https://github.com/bob'',
          skills = [''Go'', ''Rust''], company = ''Bob'', website = [],
          followers = 0, repos = 0, source = Some ''GitHub''\<rparr>"

definition github_carol :: profile where
  "github_carol = \<lparr>fullName = ''Carol'', email = [], bio = ''Carol'', location = ''Carol'',
          profileUrl = ''https://github.com/carol'',
          skills = [], company = ''Carol'', website = [],
          followers = 0, repos = 0, source = Some ''GitHub''\<rparr>"

section \<open>What a run returns and does\<close>

text \<open>The events of a run.\<close>

definition events :: "'a \<times> 'w \<times> event list \<Rightarrow> event list" where
  "events run = snd (snd run)"

text \<open>
  \<open>post m Q\<close>: whatever the browser does, the result \<open>r\<close> of \<open>m\<close> and the events \<open>t\<close> of
  the run satisfy \<open>Q r t\<close>.
\<close>

definition post :: "('w, 'a) io \<Rightarrow> ('a \<Rightarrow> event list \<Rightarrow> bool) \<Rightarrow> bool" where
  "post m Q = (\<forall>w r w' t. m w = (r, w', t) \<longrightarrow> Q r t)"

subsection \<open>Events\<close>

text \<open>The calls that only read the page: a selector, an attribute, a text.\<close>

fun reading :: "event \<Rightarrow> bool" where
  "reading (Call (Query _) _) = True"
| "reading (Call (QueryAll _) _) = True"
| "reading (Call (GetAttribute _) _) = True"
| "reading (Call InnerText _) = True"
| "reading _ = False"

text \<open>
  The events of the work on the page: all but the start and the stop of Playwright, the
  launch and the close of the browser.
\<close>

fun browsing :: "event \<Rightarrow> bool" where
  "browsing (Call Start _) = False"
| "browsing (Call Stop _) = False"
| "browsing (Call (Launch _) _) = False"
| "browsing (Call (Close _) _) = False"
| "browsing _ = True"

text \<open>The events around that work, and the lines printed.\<close>

fun framing :: "event \<Rightarrow> bool" where
  "framing (Call Start _) = True"
| "framing (Call Stop _) = True"
| "framing (Call (Launch _) _) = True"
| "framing (Call (Close _) _) = True"
| "framing (Log _) = True"
| "framing _ = False"

text \<open>The URLs navigated to, in order, whether the navigation returned or raised.\<close>

fun gotos :: "event list \<Rightarrow> string list" where
  "gotos [] = []"
| "gotos (Call (Goto url) _ # t) = url # gotos t"
| "gotos (ev # t) = gotos t"

text \<open>The places of the \<open>browser.close()\<close> calls of a run, in order.\<close>

fun closes :: "event list \<Rightarrow> site list" where
  "closes [] = []"
| "closes (Call (Close at) _ # t) = at # closes t"
| "closes (ev # t) = closes t"

text \<open>The number of reads of the page markup, \<open>page.content()\<close>.\<close>

fun scans :: "event list \<Rightarrow> nat" where
  "scans [] = 0"
| "scans (Call Content _ # t) = Suc (scans t)"
| "scans (ev # t) = scans t"

text \<open>The selectors given to \<open>query_selector_all\<close>, in order.\<close>

fun query_alls :: "event list \<Rightarrow> string list" where
  "query_alls [] = []"
| "query_alls (Call (QueryAll sel) _ # t) = sel # query_alls t"
| "query_alls (ev # t) = query_alls t"

text \<open>A launch of the browser returned.\<close>

definition launched :: "event list \<Rightarrow> bool" where
  "launched t = (\<exists>args. Call (Launch args) True \<in> set t)"

text \<open>
  A run that launched the browser closed it, behind the loop, in the handler, or in
  both places; a run that did not launch it never closed it.
\<close>

definition released :: "event list \<Rightarrow> bool" where
  "released t =
     (if launched t then closes t \<in> {[AfterLoop], [InHandler], [AfterLoop, InHandler]}
      else closes t = [])"

text \<open>
  If the run opened a page, its first navigation went to \<open>url\<close>; otherwise it navigated
  nowhere.
\<close>

definition begins :: "string \<Rightarrow> event list \<Rightarrow> bool" where
  "begins url t =
     (if Call NewPage True \<in> set t then (\<exists>rest. gotos t = url # rest) else gotos t = [])"

subsection \<open>Results\<close>

text \<open>
  What the body of a loop yields for a URL: nothing, or a profile of that URL with a name.
\<close>

definition visited :: "string \<Rightarrow> profile option \<Rightarrow> bool" where
  "visited url r = (case r of None \<Rightarrow> True | Some p \<Rightarrow> profileUrl p = url \<and> fullName p \<noteq> [])"

text \<open>Every profile has a name.\<close>

definition named :: "profile list \<Rightarrow> bool" where
  "named ps = list_all (\<lambda>p. fullName p \<noteq> []) ps"

text \<open>URLs without a repetition, none of them known already.\<close>

definition fresh :: "string list \<Rightarrow> string list \<Rightarrow> bool" where
  "fresh existing_urls urls = (distinct urls \<and> set urls \<inter> set existing_urls = {})"

text \<open>What holds of a list that a scraper returns.\<close>

definition final :: "string list \<Rightarrow> int \<Rightarrow> profile list \<Rightarrow> bool" where
  "final existing_urls max_profiles ps =
     (fresh existing_urls (map profileUrl ps) \<and> named ps \<and>
      (0 \<le> max_profiles \<longrightarrow> int (length ps) \<le> max_profiles))"

text \<open>
  A page that answers alike each time: every \<open>query_selector_all\<close> returns the elements
  \<open>els\<close>, and the text of an element \<open>el\<close> is always \<open>label el\<close>.
\<close>

definition steady :: "('w, 'e) playwright \<Rightarrow> ('e \<Rightarrow> string) \<Rightarrow> 'e list \<Rightarrow> bool" where
  "steady pw label els =
     ((\<forall>el w. fst (pw_inner_text pw el w) = Inr (label el)) \<and>
      (\<forall>sel w. fst (pw_query_selector_all pw sel w) = Inr els))"

text \<open>The stripped texts of the elements, the empty ones left out.\<close>

definition shown :: "('e \<Rightarrow> string) \<Rightarrow> 'e list \<Rightarrow> string list" where
  "shown label els = filter (\<lambda>s. s \<noteq> []) (map (\<lambda>el. py_strip (label el)) els)"

text \<open>
  A GitHub URL with one path segment of at least 2 characters from \<open>[a-zA-Z0-9_-]\<close>
  that is not on the skip list.
\<close>

definition github_profile_path :: "string \<Rightarrow> bool" where
  "github_profile_path u =
     (prefix ''https://github.com/'' u \<and>
      (let path = drop 19 u in
       1 < length path \<and> list_all href_char path \<and> py_lower path \<notin> set github_skip_paths))"

text \<open>
  A Behance URL with one path segment of at least 3 such characters that is not on the
  skip list and does not start with \<open>gallery\<close>.
\<close>

definition behance_profile_path :: "string \<Rightarrow> bool" where
  "behance_profile_path u =
     (prefix ''https://www.behance.net/'' u \<and>
      (let path = drop 24 u in
       2 < length path \<and> list_all href_char path \<and> py_lower path \<notin> set behance_skip_paths \<and>
       \<not> prefix ''gallery'' path))"

subsection \<open>The candidates and the visits\<close>

text \<open>
  What a scraper does before its loop over the profiles, from
  \<open>async with async_playwright()\<close> to the end of discovery, statement by statement as in
  the scraper.  It yields the list \<open>profile_urls\<close> that the loop is given, or the
  exception that ends the scraper before the loop.
\<close>

definition github_candidates ::
  "('w, 'e) playwright \<Rightarrow> string \<Rightarrow> string \<Rightarrow> string list \<Rightarrow> ('w, error + string list) io" where
  "github_candidates pw query loc existing_urls =
     bind (start pw) (\<lambda>_.
     bind (launch pw [''--no-sandbox'', ''--disable-dev-shm-usage'']) (\<lambda>_.
     bind (open_page pw) (\<lambda>_.
     bind (ok (print (LogSearching ''GitHub'' (github_search_url query loc)))) (\<lambda>_.
     bind (goto pw (github_search_url query loc)) (\<lambda>_.
     github_discover pw existing_urls)))))"

definition behance_candidates ::
  "('w, 'e) playwright \<Rightarrow> string \<Rightarrow> string \<Rightarrow> string list \<Rightarrow> ('w, error + string list) io" where
  "behance_candidates pw query loc existing_urls =
     bind (start pw) (\<lambda>_.
     bind (launch pw [''--no-sandbox'']) (\<lambda>_.
     bind (open_page pw) (\<lambda>_.
     bind (ok (print (LogSearching ''Behance'' (behance_search_url query loc)))) (\<lambda>_.
     bind (goto pw (behance_search_url query loc)) (\<lambda>_.
     bind (scroll pw) (\<lambda>_.
     behance_discover pw existing_urls))))))"

definition stackoverflow_candidates ::
  "('w, 'e) playwright \<Rightarrow> string list \<Rightarrow> ('w, error + string list) io" where
  "stackoverflow_candidates pw existing_urls =
     bind (start pw) (\<lambda>_.
     bind (launch pw [''--no-sandbox'']) (\<lambda>_.
     bind (open_page pw) (\<lambda>_.
     bind (ok (print (LogSearching ''StackOverflow'' stackoverflow_search_url))) (\<lambda>_.
     bind (goto pw stackoverflow_search_url) (\<lambda>_.
     stackoverflow_discover pw existing_urls)))))"

definition devto_candidates ::
  "('w, 'e) playwright \<Rightarrow> string list \<Rightarrow> ('w, error + string list) io" where
  "devto_candidates pw existing_urls =
     bind (start pw) (\<lambda>_.
     bind (launch pw [''--no-sandbox'']) (\<lambda>_.
     bind (open_page pw) (\<lambda>_.
     bind (goto pw devto_url) (\<lambda>_.
     bind (scroll pw) (\<lambda>_.
     devto_discover pw existing_urls)))))"

text \<open>
  How a loop counts that stops on the number of profiles.  Of the candidates \<open>urls\<close> it
  has visited a prefix, and the profiles \<open>ps\<close> come from these visits, in order.  With
  fewer than \<open>max_profiles\<close> profiles it has visited every candidate.  If it visited
  any, it has at most \<open>max_profiles\<close> profiles, and with exactly \<open>max_profiles\<close> the
  last visit is the one that gave the last profile: no candidate is visited behind it.
\<close>

definition counted :: "int \<Rightarrow> string list \<Rightarrow> string list \<Rightarrow> profile list \<Rightarrow> bool" where
  "counted max_profiles urls visits ps =
     (prefix visits urls \<and> subseq (map profileUrl ps) visits \<and>
      (int (length ps) < max_profiles \<longrightarrow> visits = urls) \<and>
      (visits \<noteq> [] \<longrightarrow>
         int (length ps) \<le> max_profiles \<and>
         (int (length ps) = max_profiles \<longrightarrow> ps \<noteq> [] \<and> profileUrl (last ps) = last visits)))"

section \<open>Lemmas\<close>

subsection \<open>Rules for \<open>post\<close>\<close>

lemma postD: "post m Q \<Longrightarrow> m w = (r, w', t) \<Longrightarrow> Q r t"
  by (simp add: post_def)

lemma post_weaken: "post m P \<Longrightarrow> (\<And>a t. P a t \<Longrightarrow> Q a t) \<Longrightarrow> post m Q"
  by (simp add: post_def)

lemma post_pure: "Q a [] \<Longrightarrow> post (pure a) Q"
  by (simp add: post_def pure_def)

lemma post_print: "Q () [Log m] \<Longrightarrow> post (print m) Q"
  by (simp add: post_def print_def)

lemma post_invoke: "(\<And>r. Q r [Call c (\<not> isl r)]) \<Longrightarrow> post (invoke c f) Q"
  by (auto simp: post_def invoke_def split: prod.splits)

lemma post_invoke_fst:
  "(\<And>w. Q (fst (f w)) [Call c (\<not> isl (fst (f w)))]) \<Longrightarrow> post (invoke c f) Q"
  by (auto simp: post_def invoke_def split: prod.splits) (metis fst_conv)

lemma post_seq:
  "post m P \<Longrightarrow> (\<And>a t. P a t \<Longrightarrow> post (f a) (\<lambda>r t'. Q r (t @ t'))) \<Longrightarrow> post (seq m f) Q"
  unfolding post_def seq_def
  by (auto split: prod.splits) blast

lemma post_bind:
  "post m P \<Longrightarrow> (\<And>e t. P (Inl e) t \<Longrightarrow> Q (Inl e) t)
     \<Longrightarrow> (\<And>a t. P (Inr a) t \<Longrightarrow> post (f a) (\<lambda>r t'. Q r (t @ t'))) \<Longrightarrow> post (bind m f) Q"
  unfolding post_def bind_def
  by (auto split: prod.splits sum.splits) blast

lemma post_ok: "post m (\<lambda>a. Q (Inr a)) \<Longrightarrow> post (ok m) Q"
  by (auto simp: post_def ok_def split: prod.splits)

lemma post_attempt:
  "post m (\<lambda>r. Q (case r of Inl e \<Rightarrow> None | Inr a \<Rightarrow> Some a)) \<Longrightarrow> post (attempt m) Q"
  unfolding post_def attempt_def
  by (auto split: prod.splits sum.splits)

lemma post_try_except:
  "post m P \<Longrightarrow> (\<And>a t. P (Inr a) t \<Longrightarrow> Q a t)
     \<Longrightarrow> (\<And>e t. P (Inl e) t \<Longrightarrow> post (h e) (\<lambda>r t'. Q r (t @ t'))) \<Longrightarrow> post (try_except m h) Q"
  unfolding post_def try_except_def
  by (auto split: prod.splits sum.splits) blast

lemma post_any: "post m (\<lambda>r t. True)"
  by (simp add: post_def)

lemma post_print_bind:
  "post rest (\<lambda>r t. Q r (Log m # t)) \<Longrightarrow> post (bind (ok (print m)) (\<lambda>_. rest)) Q"
  by (rule post_bind[where P="\<lambda>r t. t = [Log m] \<and> \<not> isl r"])
     (auto simp: post_def ok_def print_def)

lemma post_invoke_bind:
  "(\<And>e. Q (Inl e) [Call c False]) \<Longrightarrow> (\<And>a. post (f a) (\<lambda>r t. Q r (Call c True # t)))
     \<Longrightarrow> post (bind (invoke c g) f) Q"
  by (rule post_bind[where P="\<lambda>r t. t = [Call c (\<not> isl r)]"])
     (auto simp: post_def invoke_def split: prod.splits)

lemma post_ok_bind:
  "post m P \<Longrightarrow> (\<And>a t. P a t \<Longrightarrow> post (f a) (\<lambda>r t'. Q r (t @ t'))) \<Longrightarrow> post (bind (ok m) f) Q"
  by (rule post_bind[where P="\<lambda>r t. \<exists>a. r = Inr a \<and> P a t"])
     (auto simp: post_def ok_def split: prod.splits)

lemma post_run: "post m Q \<Longrightarrow> Q (fst (m w)) (events (m w))"
  by (cases "m w") (auto simp: events_def dest: postD)

subsection \<open>Events\<close>

lemma gotos_append: "gotos (a @ b) = gotos a @ gotos b"
  by (induction a rule: gotos.induct) auto

lemma closes_append: "closes (a @ b) = closes a @ closes b"
  by (induction a rule: closes.induct) auto

lemma scans_append: "scans (a @ b) = scans a + scans b"
  by (induction a rule: scans.induct) auto

lemma launched_append: "launched (a @ b) \<longleftrightarrow> launched a \<or> launched b"
  by (auto simp: launched_def)

lemma launched_Nil: "\<not> launched []"
  by (simp add: launched_def)

lemma reading_browsing: "reading ev \<Longrightarrow> browsing ev"
  by (cases ev rule: reading.cases) auto

lemma reading_all_browsing: "list_all reading t \<Longrightarrow> list_all browsing t"
  by (induction t) (auto intro: reading_browsing)

lemma reading_gotos: "list_all reading t \<Longrightarrow> gotos t = []"
  by (induction t rule: gotos.induct) auto

lemma reading_scans: "list_all reading t \<Longrightarrow> scans t = 0"
  by (induction t rule: scans.induct) auto

lemma browsing_closes: "list_all browsing t \<Longrightarrow> closes t = [] \<and> \<not> launched t"
proof (induction t rule: closes.induct)
  case (2 at uu t)
  then show ?case by simp
qed (auto simp: launched_def)

lemma framing_gotos: "list_all framing t \<Longrightarrow> gotos t = [] \<and> Call NewPage True \<notin> set t"
  by (induction t rule: gotos.induct) auto

lemma begins_framed:
  "list_all framing pre \<Longrightarrow> list_all framing suf \<Longrightarrow> begins url (pre @ mid @ suf) = begins url mid"
  using framing_gotos[of pre] framing_gotos[of suf] by (simp add: begins_def gotos_append)

lemma begins_Log: "begins url (Log m # t) = begins url t"
  by (simp add: begins_def)

lemma released_Log: "released (Log m # t) = released t"
  by (simp add: released_def launched_def)

subsection \<open>The extractors\<close>

lemma element_text_post: "post (element_text pw sel) (\<lambda>r t. list_all reading t)"
  unfolding element_text_def query_selector_def inner_text_def
  apply (rule post_seq[where P="\<lambda>r t. list_all reading t"])
   apply (rule post_attempt)
   apply (rule post_bind[where P="\<lambda>r t. list_all reading t"])
     apply (rule post_invoke, simp)
    apply simp
   apply (simp split: option.splits)
   apply (intro conjI impI allI)
    apply (rule post_pure, simp)
   apply (rule post_bind[where P="\<lambda>r t. list_all reading t"])
     apply (rule post_invoke, simp)
    apply simp
   apply (rule post_pure, simp)
  apply (rule post_pure, simp)
  done

lemma first_text_post:
  "post (first_text pw accept sels) (\<lambda>r t. list_all reading t \<and> (\<forall>x. r = Some x \<longrightarrow> accept x))"
proof (induction sels)
  case Nil
  show ?case by (simp add: post_pure)
next
  case (Cons sel sels)
  show ?case
    apply simp
    apply (rule post_seq[OF element_text_post])
    apply (simp split: option.splits)
    apply (intro conjI impI allI)
      apply (rule Cons.IH)
     apply (rule post_pure, simp)
    apply (rule Cons.IH)
    done
qed

lemma seen_loop_post:
  "distinct got \<Longrightarrow> seen = set got \<Longrightarrow> [] \<notin> set got \<Longrightarrow>
   post (seen_loop pw els got seen)
     (\<lambda>r t. list_all reading t \<and> distinct r \<and> [] \<notin> set r \<and> length r \<le> length got + length els)"
proof (induction els arbitrary: got seen)
  case Nil
  then show ?case by (simp add: post_pure)
next
  case (Cons el els)
  have step: "post (seen_loop pw els (got @ [s]) (insert s seen))
     (\<lambda>r t. list_all reading t \<and> distinct r \<and> [] \<notin> set r \<and> length r \<le> Suc (length got + length els))"
    if "s \<noteq> []" "s \<notin> seen" for s
    using Cons.IH[of "got @ [s]" "insert s seen"] Cons.prems that by simp
  have skip: "post (seen_loop pw els got seen)
     (\<lambda>r t. list_all reading t \<and> distinct r \<and> [] \<notin> set r \<and> length r \<le> Suc (length got + length els))"
    by (rule post_weaken[OF Cons.IH[OF Cons.prems]]) simp
  show ?case
    apply (simp add: inner_text_def)
    apply (rule post_seq[where P="\<lambda>r t. list_all reading t"])
     apply (rule post_attempt, rule post_invoke, simp)
    apply (simp split: option.splits add: Let_def)
    apply (intro conjI impI allI)
      apply (rule post_pure, simp add: Cons.prems)
     apply (rule step; simp)
    apply (rule skip)
    apply (rule skip)
    done
qed

lemma behance_skills_loop_post:
  "\<forall>s\<in>set got. s \<noteq> [] \<and> length s < 50 \<Longrightarrow>
   post (behance_skills_loop pw els got)
     (\<lambda>r t. list_all reading t \<and> (\<forall>s\<in>set r. s \<noteq> [] \<and> length s < 50) \<and>
            length r \<le> length got + length els)"
proof (induction els arbitrary: got)
  case Nil
  then show ?case by (simp add: post_pure)
next
  case (Cons el els)
  have step: "post (behance_skills_loop pw els (got @ [s]))
     (\<lambda>r t. list_all reading t \<and> (\<forall>s\<in>set r. s \<noteq> [] \<and> length s < 50) \<and>
            length r \<le> Suc (length got + length els))"
    if "s \<noteq> []" "length s < 50" for s
    using Cons.IH[of "got @ [s]"] Cons.prems that by simp
  have skip: "post (behance_skills_loop pw els got)
     (\<lambda>r t. list_all reading t \<and> (\<forall>s\<in>set r. s \<noteq> [] \<and> length s < 50) \<and>
            length r \<le> Suc (length got + length els))"
    by (rule post_weaken[OF Cons.IH[OF Cons.prems]]) simp
  show ?case
    apply (simp add: inner_text_def)
    apply (rule post_seq[where P="\<lambda>r t. list_all reading t"])
     apply (rule post_attempt, rule post_invoke, simp)
    apply (simp split: option.splits add: Let_def)
    apply (intro conjI impI allI)
       apply (rule post_pure, simp add: Cons.prems)
      apply (rule step; simp)
     apply (rule skip)
    apply (rule skip)
    done
qed

lemma github_name_post: "post (github_name pw) (\<lambda>r t. list_all reading t)"
  unfolding github_name_def
  apply (rule post_seq[OF first_text_post])
  apply (simp add: Let_def)
  apply (intro conjI impI)
   apply (rule post_seq[OF element_text_post], simp)
   apply (rule post_pure, simp)
  apply (rule post_pure, simp)
  done

lemma query_selector_all_post:
  "post (attempt (query_selector_all pw sel)) (\<lambda>r t. list_all reading t)"
  unfolding query_selector_all_def
  by (rule post_attempt, rule post_invoke, simp)

lemma github_skills_post:
  "post (github_skills pw) (\<lambda>r t. list_all reading t \<and> distinct r \<and> [] \<notin> set r)"
  unfolding github_skills_def
  apply (rule post_seq[OF query_selector_all_post])
  apply (simp split: option.splits)
  apply (intro conjI impI allI)
   apply (rule post_pure, simp)
  apply (rule post_weaken[OF seen_loop_post]; simp)
  done

lemma stackoverflow_skills_post:
  "post (stackoverflow_skills pw)
     (\<lambda>r t. list_all reading t \<and> distinct r \<and> [] \<notin> set r \<and> length r \<le> 15)"
  unfolding stackoverflow_skills_def
  apply (rule post_seq[OF query_selector_all_post])
  apply (simp split: option.splits)
  apply (intro conjI impI allI)
   apply (rule post_pure, simp)
  apply (rule post_weaken[OF seen_loop_post]; simp)
  done

lemma behance_skills_post:
  "post (behance_skills pw)
     (\<lambda>r t. list_all reading t \<and> (\<forall>s\<in>set r. s \<noteq> [] \<and> length s < 50) \<and> length r \<le> 10)"
  unfolding behance_skills_def
  apply (rule post_seq[OF query_selector_all_post])
  apply (simp split: option.splits)
  apply (intro conjI impI allI)
   apply (rule post_pure, simp)
  apply (rule post_weaken[OF behance_skills_loop_post]; simp)
  done

lemma extract_github_profile_post:
  "post (extract_github_profile pw url)
     (\<lambda>p t. list_all reading t \<and> profileUrl p = url \<and> distinct (skills p) \<and> [] \<notin> set (skills p))"
  unfolding extract_github_profile_def
  apply (rule post_seq[OF github_name_post], simp del: first_text.simps)
  apply (rule post_seq[OF first_text_post], simp del: first_text.simps)
  apply (rule post_seq[OF first_text_post], simp del: first_text.simps)
  apply (rule post_seq[OF element_text_post], simp del: first_text.simps)
  apply (rule post_seq[OF github_skills_post], simp del: first_text.simps)
  apply (rule post_pure, simp add: new_profile_def)
  done

lemma extract_behance_profile_post:
  "post (extract_behance_profile pw url)
     (\<lambda>p t. list_all reading t \<and> profileUrl p = url \<and>
            (\<forall>s\<in>set (skills p). s \<noteq> [] \<and> length s < 50) \<and> length (skills p) \<le> 10)"
  unfolding extract_behance_profile_def
  apply (rule post_seq[OF first_text_post], simp del: first_text.simps)
  apply (rule post_seq[OF first_text_post], simp del: first_text.simps)
  apply (rule post_seq[OF first_text_post], simp del: first_text.simps)
  apply (rule post_seq[OF behance_skills_post], simp del: first_text.simps)
  apply (rule post_pure, simp add: new_profile_def)
  done

lemma extract_stackoverflow_profile_post:
  "post (extract_stackoverflow_profile pw url)
     (\<lambda>p t. list_all reading t \<and> profileUrl p = url \<and> distinct (skills p) \<and>
            [] \<notin> set (skills p) \<and> length (skills p) \<le> 15)"
  unfolding extract_stackoverflow_profile_def
  apply (rule post_seq[OF first_text_post], simp del: first_text.simps)
  apply (rule post_seq[OF element_text_post], simp del: first_text.simps)
  apply (rule post_seq[OF element_text_post], simp del: first_text.simps)
  apply (rule post_seq[OF stackoverflow_skills_post], simp del: first_text.simps)
  apply (rule post_pure, simp add: new_profile_def)
  done

lemma extract_devto_profile_post:
  "post (extract_devto_profile pw url)
     (\<lambda>p t. list_all reading t \<and> profileUrl p = url \<and> skills p = [])"
  unfolding extract_devto_profile_def
  apply (rule post_seq[OF first_text_post], simp del: first_text.simps)
  apply (rule post_seq[OF first_text_post], simp del: first_text.simps)
  apply (rule post_seq[OF element_text_post], simp del: first_text.simps)
  apply (rule post_pure, simp add: new_profile_def)
  done

subsection \<open>The visit of one profile\<close>

lemma github_visit_post:
  "post (github_visit pw n i url) (\<lambda>r t. gotos t = [url] \<and> list_all browsing t \<and> visited url r)"
  unfolding github_visit_def goto_def
  apply (rule post_try_except[where P="\<lambda>r t. gotos t = [url] \<and> list_all browsing t \<and>
            (\<forall>x. r = Inr x \<longrightarrow> visited url x)"])
    apply (rule post_print_bind)
    apply (rule post_invoke_bind, simp)
    apply (rule post_ok_bind[OF extract_github_profile_post])
    apply (clarsimp simp: reading_gotos reading_all_browsing gotos_append)
    apply (intro conjI impI)
     apply (rule post_print_bind, rule post_pure, simp add: visited_def gotos_append)
    apply (rule post_pure, simp add: visited_def)
   apply simp
  apply (rule post_seq[where P="\<lambda>r t. gotos t = [] \<and> list_all browsing t"])
   apply (rule post_print, simp)
  apply (rule post_pure, simp add: visited_def gotos_append)
  done

lemma behance_visit_post:
  "post (behance_visit pw url) (\<lambda>r t. gotos t = [url] \<and> list_all browsing t \<and> visited url r)"
  unfolding behance_visit_def goto_def
  apply (rule post_try_except[where P="\<lambda>r t. gotos t = [url] \<and> list_all browsing t \<and>
            (\<forall>x. r = Inr x \<longrightarrow> visited url x)"])
    apply (rule post_invoke_bind, simp)
    apply (rule post_ok_bind[OF extract_behance_profile_post])
    apply (clarsimp simp: reading_gotos reading_all_browsing gotos_append)
    apply (intro conjI impI)
     apply (rule post_print_bind, rule post_pure, simp add: visited_def gotos_append)
    apply (rule post_pure, simp add: visited_def)
   apply simp
  apply (rule post_seq[where P="\<lambda>r t. gotos t = [] \<and> list_all browsing t"])
   apply (rule post_print, simp)
  apply (rule post_pure, simp add: visited_def gotos_append)
  done

lemma stackoverflow_visit_post:
  "post (stackoverflow_visit pw i url)
     (\<lambda>r t. gotos t = [url] \<and> list_all browsing t \<and> visited url r)"
  unfolding stackoverflow_visit_def goto_def
  apply (rule post_try_except[where P="\<lambda>r t. gotos t = [url] \<and> list_all browsing t \<and>
            (\<forall>x. r = Inr x \<longrightarrow> visited url x)"])
    apply (rule post_invoke_bind, simp)
    apply (rule post_ok_bind[OF extract_stackoverflow_profile_post])
    apply (clarsimp simp: reading_gotos reading_all_browsing gotos_append)
    apply (intro conjI impI)
     apply (rule post_print_bind, rule post_pure, simp add: visited_def gotos_append)
    apply (rule post_pure, simp add: visited_def)
   apply simp
  apply (rule post_seq[where P="\<lambda>r t. gotos t = [] \<and> list_all browsing t"])
   apply (rule post_print, simp)
  apply (rule post_pure, simp add: visited_def gotos_append)
  done

lemma devto_visit_post:
  "post (devto_visit pw url) (\<lambda>r t. gotos t = [url] \<and> list_all browsing t \<and> visited url r)"
  unfolding devto_visit_def goto_def query_selector_def
  apply (rule post_try_except[where P="\<lambda>r t. gotos t = [url] \<and> list_all browsing t \<and>
            (\<forall>x. r = Inr x \<longrightarrow> visited url x)"])
    apply (rule post_invoke_bind, simp)
    apply (rule post_invoke_bind, simp)
    apply (simp split: option.splits)
    apply (intro conjI impI allI)
     apply (rule post_pure, simp add: visited_def)
    apply (rule post_ok_bind[OF extract_devto_profile_post])
    apply (clarsimp simp: reading_gotos reading_all_browsing gotos_append)
    apply (intro conjI impI)
     apply (rule post_print_bind, rule post_pure, simp add: visited_def gotos_append)
    apply (rule post_pure, simp add: visited_def)
   apply simp
  apply (rule post_seq[where P="\<lambda>r t. gotos t = [] \<and> list_all browsing t"])
   apply (rule post_print, simp)
  apply (rule post_pure, simp add: visited_def gotos_append)
  done

subsection \<open>The two loops\<close>

lemma for_each_post:
  assumes body: "\<And>i url. post (body i url)
                   (\<lambda>r t. gotos t = [url] \<and> list_all browsing t \<and> visited url r)"
  shows "post (for_each body i urls ps)
           (\<lambda>r t. gotos t = urls \<and> list_all browsing t \<and>
                  (\<exists>new. r = ps @ new \<and> subseq (map profileUrl new) urls \<and> named new))"
proof (induction urls arbitrary: i ps)
  case Nil
  show ?case by (simp add: post_pure named_def)
next
  case (Cons url urls)
  show ?case
    apply simp
    apply (rule post_seq[OF body])
    apply (clarsimp simp: gotos_append split: option.splits)
    apply (intro conjI impI allI)
     apply (rule post_weaken[OF Cons.IH])
     apply (auto simp: named_def)[1]
    apply (rule post_weaken[OF Cons.IH])
    apply (auto simp: named_def visited_def)[1]
    done
qed

lemma until_scraped_post:
  assumes body: "\<And>url. post (body url)
                   (\<lambda>r t. gotos t = [url] \<and> list_all browsing t \<and> visited url r)"
  shows "post (until_scraped body max_profiles urls scraped ps)
           (\<lambda>r t. prefix (gotos t) urls \<and> list_all browsing t \<and>
                  (\<exists>new. r = ps @ new \<and> subseq (map profileUrl new) (gotos t) \<and> named new \<and>
                     (gotos t = urls \<or> max_profiles \<le> scraped + int (length new)) \<and>
                     (scraped \<le> max_profiles \<longrightarrow> scraped + int (length new) \<le> max_profiles)))"
proof (induction urls arbitrary: scraped ps)
  case Nil
  show ?case by (simp add: post_pure named_def)
next
  case (Cons url urls)
  show ?case
    apply simp
    apply (intro conjI impI)
     apply (rule post_pure, simp add: named_def)
    apply (rule post_seq[OF body])
    apply (clarsimp simp: gotos_append split: option.splits)
    apply (intro conjI impI allI)
     apply (rule post_weaken[OF Cons.IH])
     apply (auto simp: named_def)[1]
    apply (rule post_weaken[OF Cons.IH])
    apply (auto simp: named_def visited_def)[1]
    done
qed

subsection \<open>Discovery\<close>

lemma subseq_subset: "subseq xs ys \<Longrightarrow> set xs \<subseteq> set ys"
  by (induction rule: list_emb.induct) auto

lemma subseq_distinct: "subseq xs ys \<Longrightarrow> distinct ys \<Longrightarrow> distinct xs"
proof (induction rule: list_emb.induct)
  case (list_emb_Cons2 x y xs ys)
  then show ?case using subseq_subset[of xs ys] by auto
qed auto

lemma subseq_fresh: "subseq xs ys \<Longrightarrow> fresh ex ys \<Longrightarrow> fresh ex xs"
  unfolding fresh_def using subseq_distinct subseq_subset by blast

lemma fresh_Nil: "fresh ex []"
  by (simp add: fresh_def)

lemma py_take_subseq: "subseq (py_take n xs) xs"
  by (auto simp: py_take_def intro!: prefix_imp_subseq take_is_prefix)

lemma py_take_length: "0 \<le> n \<Longrightarrow> int (length (py_take n xs)) \<le> n"
  by (simp add: py_take_def)

lemma add_url_fresh: "fresh ex urls \<Longrightarrow> fresh ex (add_url ex u urls)"
  by (auto simp: fresh_def add_url_def)

lemma github_link_fresh: "fresh ex urls \<Longrightarrow> fresh ex (github_link ex href urls)"
  by (auto simp: github_link_def add_url_fresh split: option.splits)

lemma github_match_fresh: "fresh ex urls \<Longrightarrow> fresh ex (github_match ex urls m)"
  by (auto simp: github_match_def Let_def add_url_fresh)

lemma behance_match_fresh: "fresh ex urls \<Longrightarrow> fresh ex (behance_match ex urls m)"
  by (auto simp: behance_match_def Let_def fresh_def)

lemma stackoverflow_link_fresh: "fresh ex urls \<Longrightarrow> fresh ex (stackoverflow_link ex href urls)"
  by (auto simp: stackoverflow_link_def Let_def add_url_fresh split: option.splits)

lemma devto_link_fresh: "fresh ex urls \<Longrightarrow> fresh ex (devto_link ex href urls)"
  by (auto simp: devto_link_def Let_def add_url_fresh split: option.splits)

lemma foldl_fresh:
  "(\<And>urls m. fresh ex urls \<Longrightarrow> fresh ex (f urls m)) \<Longrightarrow> fresh ex urls \<Longrightarrow> fresh ex (foldl f urls ms)"
  by (induction ms arbitrary: urls) auto

lemma get_attribute_post:
  "post (attempt (get_attribute pw el name)) (\<lambda>r t. list_all reading t)"
  unfolding get_attribute_def
  by (rule post_attempt, rule post_invoke, simp)

lemma github_links_post:
  "fresh ex urls \<Longrightarrow>
   post (github_links pw ex links urls) (\<lambda>r t. list_all reading t \<and> fresh ex r)"
proof (induction links arbitrary: urls)
  case Nil
  then show ?case by (simp add: post_pure)
next
  case (Cons link links)
  show ?case
    apply simp
    apply (rule post_seq[OF get_attribute_post])
    apply (simp split: option.splits)
    apply (intro conjI impI allI)
     apply (rule post_pure, simp add: Cons.prems)
    apply (rule Cons.IH[OF github_link_fresh[OF Cons.prems]])
    done
qed

lemma github_selectors_post:
  "fresh ex urls \<Longrightarrow>
   post (github_selectors pw ex sels urls) (\<lambda>r t. list_all reading t \<and> fresh ex r)"
proof (induction sels arbitrary: urls)
  case Nil
  then show ?case by (simp add: post_pure)
next
  case (Cons sel sels)
  show ?case
    apply simp
    apply (rule post_seq[OF query_selector_all_post])
    apply (simp split: option.splits)
    apply (intro conjI impI allI)
     apply (rule Cons.IH[OF Cons.prems])
    apply (rule post_seq[OF github_links_post[OF Cons.prems]])
    apply simp
    apply (rule Cons.IH)
    apply simp
    done
qed

lemma github_discover_post:
  "post (github_discover pw ex)
     (\<lambda>r t. list_all browsing t \<and> gotos t = [] \<and> (\<forall>urls. r = Inr urls \<longrightarrow> fresh ex urls))"
  unfolding github_discover_def content_def
  apply (rule post_ok_bind[OF github_selectors_post[OF fresh_Nil]])
  apply (clarsimp simp: reading_gotos reading_all_browsing gotos_append)
  apply (intro conjI impI)
   apply (rule post_invoke_bind, simp)
   apply (rule post_pure, simp add: foldl_fresh github_match_fresh)
  apply (rule post_pure, simp)
  done

lemma behance_discover_post:
  "post (behance_discover pw ex)
     (\<lambda>r t. list_all browsing t \<and> gotos t = [] \<and> (\<forall>urls. r = Inr urls \<longrightarrow> fresh ex urls))"
  unfolding behance_discover_def content_def
  apply (rule post_invoke_bind, simp)
  apply (rule post_pure, simp add: foldl_fresh behance_match_fresh fresh_Nil)
  done

lemma stackoverflow_links_post:
  "fresh ex urls \<Longrightarrow>
   post (stackoverflow_links pw ex links urls)
     (\<lambda>r t. list_all reading t \<and> (\<forall>urls. r = Inr urls \<longrightarrow> fresh ex urls))"
proof (induction links arbitrary: urls)
  case Nil
  then show ?case by (simp add: post_pure)
next
  case (Cons link links)
  show ?case
    apply (simp add: get_attribute_def)
    apply (rule post_invoke_bind, simp)
    apply simp
    apply (rule Cons.IH[OF stackoverflow_link_fresh[OF Cons.prems]])
    done
qed

lemma stackoverflow_discover_post:
  "post (stackoverflow_discover pw ex)
     (\<lambda>r t. list_all browsing t \<and> gotos t = [] \<and> (\<forall>urls. r = Inr urls \<longrightarrow> fresh ex urls))"
  unfolding stackoverflow_discover_def query_selector_all_def
  apply (rule post_invoke_bind, simp)
  apply simp
  apply (rule post_weaken[OF stackoverflow_links_post[OF fresh_Nil]])
  apply (simp add: reading_gotos reading_all_browsing)
  done

lemma devto_links_post:
  "fresh ex urls \<Longrightarrow>
   post (devto_links pw ex links urls) (\<lambda>r t. list_all reading t \<and> fresh ex r)"
proof (induction links arbitrary: urls)
  case Nil
  then show ?case by (simp add: post_pure)
next
  case (Cons link links)
  show ?case
    apply simp
    apply (rule post_seq[OF get_attribute_post])
    apply simp
    apply (rule Cons.IH)
    apply (simp add: Cons.prems devto_link_fresh split: option.splits)
    done
qed

lemma devto_discover_post:
  "post (devto_discover pw ex)
     (\<lambda>r t. list_all browsing t \<and> gotos t = [] \<and> (\<forall>urls. r = Inr urls \<longrightarrow> fresh ex urls))"
  unfolding devto_discover_def query_selector_all_def
  apply (rule post_invoke_bind, simp)
  apply simp
  apply (rule post_ok)
  apply (rule post_weaken[OF devto_links_post[OF fresh_Nil]])
  apply (simp add: reading_gotos reading_all_browsing)
  done

subsection \<open>The session\<close>

lemma handler_shape:
  assumes "handler pw line e browser ps w = (r, w', t)"
  shows "list_all framing t \<and> (\<forall>ps'. r = Inr ps' \<longrightarrow> ps' = ps)"
  using assms
  by (auto simp: handler_def bind_def ok_def print_def pure_def close_def invoke_def
           split: prod.splits sum.splits if_splits)

lemma session_shape:
  assumes "session pw args work w = ((raised, browser, ps), w', t)"
  shows "\<exists>pre mid suf. t = pre @ mid @ suf \<and> list_all framing pre \<and> list_all framing suf \<and>
           ((mid = [] \<and> ps = []) \<or>
            (\<exists>w1 r1 w2. work w1 = (r1, w2, mid) \<and> (ps = [] \<or> r1 = Inr ps)))"
proof (cases "launch pw args w")
  case (fields l w1 t1)
  have t1: "list_all framing t1"
    using fields by (auto simp: launch_def invoke_def split: prod.splits)
  show ?thesis
  proof (cases l)
    case (Inl e)
    with fields assms have eq: "t = t1 @ [] @ []" "ps = []"
      by (auto simp: session_def)
    show ?thesis
      apply (rule exI[of _ t1], rule exI[of _ "[]"], rule exI[of _ "[]"])
      using eq t1 by simp
  next
    case (Inr u)
    obtain r1 w2 t2 where wk: "work w1 = (r1, w2, t2)"
      by (cases "work w1") auto
    show ?thesis
    proof (cases r1)
      case (Inl e)
      with fields Inr wk assms have eq: "t = t1 @ t2 @ []" "ps = []"
        by (auto simp: session_def)
      show ?thesis
        apply (rule exI[of _ t1], rule exI[of _ t2], rule exI[of _ "[]"])
        using eq t1 wk by auto
    next
      case found: (Inr profiles)
      obtain c w3 t3 where cl: "close pw AfterLoop w2 = (c, w3, t3)"
        by (cases "close pw AfterLoop w2") auto
      have t3: "list_all framing t3"
        using cl by (auto simp: close_def invoke_def split: prod.splits)
      from fields Inr wk found cl assms have eq: "t = t1 @ t2 @ t3" "ps = profiles"
        by (auto simp: session_def split: sum.splits)
      show ?thesis
        apply (rule exI[of _ t1], rule exI[of _ t2], rule exI[of _ t3])
        using eq t1 t3 wk found by auto
    qed
  qed
qed

lemma scrape_with_shape:
  assumes "scrape_with pw line args work w = (r, w', t)"
  shows "\<exists>pre mid suf. t = pre @ mid @ suf \<and> list_all framing pre \<and> list_all framing suf \<and>
           ((mid = [] \<and> (\<forall>ps. r = Inr ps \<longrightarrow> ps = [])) \<or>
            (\<exists>w1 r1 w2. work w1 = (r1, w2, mid) \<and> (\<forall>ps. r = Inr ps \<longrightarrow> ps = [] \<or> r1 = Inr ps)))"
proof (cases "start pw w")
  case (fields st w1 t1)
  have t1: "list_all framing t1"
    using fields by (auto simp: start_def invoke_def split: prod.splits)
  show ?thesis
  proof (cases st)
    case (Inl e)
    with fields assms have eq: "t = t1 @ [] @ [Log (line e)]" "r = Inr []"
      by (auto simp: scrape_with_def handler_def bind_def ok_def print_def pure_def split: prod.splits)
    show ?thesis
      apply (rule exI[of _ t1], rule exI[of _ "[]"], rule exI[of _ "[Log (line e)]"])
      using eq t1 by simp
  next
    case (Inr u)
    obtain raised browser ps w2 t2 where se: "session pw args work w1 = ((raised, browser, ps), w2, t2)"
      by (cases "session pw args work w1") auto
    obtain stopped w3 t3 where sp: "stop pw w2 = (stopped, w3, t3)"
      by (cases "stop pw w2") auto
    have t3: "list_all framing t3"
      using sp by (auto simp: stop_def invoke_def split: prod.splits)
    from session_shape[OF se] obtain pre mid suf where
      t2: "t2 = pre @ mid @ suf" and pre: "list_all framing pre" and suf: "list_all framing suf"
      and mid: "(mid = [] \<and> ps = []) \<or> (\<exists>w1 r1 w2. work w1 = (r1, w2, mid) \<and> (ps = [] \<or> r1 = Inr ps))"
      by blast
    have "\<exists>t4. t = t1 @ t2 @ t3 @ t4 \<and> list_all framing t4 \<and> (\<forall>ps'. r = Inr ps' \<longrightarrow> ps' = ps)"
    proof (cases "case stopped of Inl e \<Rightarrow> Some e | Inr _ \<Rightarrow> raised")
      case None
      with fields Inr se sp assms show ?thesis
        by (auto simp: scrape_with_def)
    next
      case (Some e)
      obtain r4 w4 t4 where h: "handler pw line e browser ps w3 = (r4, w4, t4)"
        by (cases "handler pw line e browser ps w3") auto
      with Some fields Inr se sp assms have "t = t1 @ t2 @ t3 @ t4" "r = r4"
        by (auto simp: scrape_with_def)
      with handler_shape[OF h] show ?thesis by auto
    qed
    then obtain t4 where t: "t = t1 @ t2 @ t3 @ t4" and t4: "list_all framing t4"
      and r: "\<forall>ps'. r = Inr ps' \<longrightarrow> ps' = ps"
      by blast
    show ?thesis
      apply (rule exI[of _ "t1 @ pre"], rule exI[of _ mid], rule exI[of _ "suf @ t3 @ t4"])
      using t t2 t1 pre suf t3 t4 mid r by auto
  qed
qed

subsection \<open>The work on the page\<close>

lemma open_page_post:
  "post (open_page pw)
     (\<lambda>r t. list_all browsing t \<and> gotos t = [] \<and> (Call NewPage True \<in> set t \<longleftrightarrow> \<not> isl r))"
  unfolding open_page_def new_context_def new_page_def
  apply (rule post_ok_bind[where P="\<lambda>a t. t = []"])
   apply (simp add: post_def choose_agent_def split: prod.splits)
  apply simp
  apply (rule post_invoke_bind, simp)
  apply (rule post_invoke, simp)
  done

lemma scroll_post:
  "post (scroll pw) (\<lambda>r t. list_all browsing t \<and> gotos t = [] \<and> Call NewPage True \<notin> set t)"
  unfolding scroll_def press_def
  apply (rule post_invoke_bind, simp)
  apply (rule post_invoke_bind, simp)
  apply (rule post_invoke, simp)
  done

lemma for_each_final:
  assumes "fresh ex urls"
    and "r = [] @ new" "subseq (map profileUrl new) (py_take max_profiles urls)" "named new"
  shows "final ex max_profiles r"
proof -
  have "subseq (map profileUrl new) urls"
    using assms(3) py_take_subseq subseq_order.order_trans by blast
  moreover have "0 \<le> max_profiles \<Longrightarrow> int (length new) \<le> max_profiles"
    using list_emb_length[OF assms(3)] py_take_length[of max_profiles urls] by simp
  ultimately show ?thesis
    using assms by (auto simp: final_def intro: subseq_fresh)
qed

lemma until_scraped_final:
  assumes "fresh ex urls"
    and "r = [] @ new" "subseq (map profileUrl new) gs" "prefix gs urls" "named new"
    and "0 \<le> max_profiles \<longrightarrow> 0 + int (length new) \<le> max_profiles"
  shows "final ex max_profiles r"
proof -
  have "subseq (map profileUrl new) urls"
    using assms(3,4) prefix_imp_subseq subseq_order.order_trans by blast
  then show ?thesis
    using assms by (auto simp: final_def intro: subseq_fresh)
qed

lemma github_work_post:
  "post (github_work pw query loc max_profiles ex)
     (\<lambda>r t. list_all browsing t \<and> begins (github_search_url query loc) t \<and>
            (\<forall>ps. r = Inr ps \<longrightarrow> final ex max_profiles ps))"
  unfolding github_work_def goto_def
  apply (rule post_bind[OF open_page_post])
   apply (simp add: begins_def)
  apply (rule post_weaken[where P="\<lambda>r t. list_all browsing t \<and>
            (\<exists>rest. gotos t = github_search_url query loc # rest) \<and>
            (\<forall>ps. r = Inr ps \<longrightarrow> final ex max_profiles ps)"])
   prefer 2 apply (simp add: begins_def gotos_append)
  apply (rule post_print_bind)
  apply (rule post_invoke_bind, simp)
  apply (rule post_bind[OF github_discover_post])
   apply simp
  apply (rule post_print_bind)
  apply (rule post_ok)
  apply (rule post_weaken[OF for_each_post[OF github_visit_post]])
  apply (auto simp: gotos_append intro: for_each_final)
  done

lemma behance_work_post:
  "post (behance_work pw query loc max_profiles ex)
     (\<lambda>r t. list_all browsing t \<and> begins (behance_search_url query loc) t \<and>
            (\<forall>ps. r = Inr ps \<longrightarrow> final ex max_profiles ps))"
  unfolding behance_work_def goto_def
  apply (rule post_bind[OF open_page_post])
   apply (simp add: begins_def)
  apply (rule post_weaken[where P="\<lambda>r t. list_all browsing t \<and>
            (\<exists>rest. gotos t = behance_search_url query loc # rest) \<and>
            (\<forall>ps. r = Inr ps \<longrightarrow> final ex max_profiles ps)"])
   prefer 2 apply (simp add: begins_def gotos_append)
  apply (rule post_print_bind)
  apply (rule post_invoke_bind, simp)
  apply (rule post_bind[OF scroll_post])
   apply simp
  apply (rule post_bind[OF behance_discover_post])
   apply simp
  apply (rule post_print_bind)
  apply (rule post_ok)
  apply (rule post_weaken[OF until_scraped_post[OF behance_visit_post]])
  apply (auto simp: gotos_append intro: until_scraped_final)
  done

lemma stackoverflow_work_post:
  "post (stackoverflow_work pw query loc max_profiles ex)
     (\<lambda>r t. list_all browsing t \<and> begins stackoverflow_search_url t \<and>
            (\<forall>ps. r = Inr ps \<longrightarrow> final ex max_profiles ps))"
  unfolding stackoverflow_work_def goto_def
  apply (rule post_bind[OF open_page_post])
   apply (simp add: begins_def)
  apply (rule post_weaken[where P="\<lambda>r t. list_all browsing t \<and>
            (\<exists>rest. gotos t = stackoverflow_search_url # rest) \<and>
            (\<forall>ps. r = Inr ps \<longrightarrow> final ex max_profiles ps)"])
   prefer 2 apply (simp add: begins_def gotos_append)
  apply (rule post_print_bind)
  apply (rule post_invoke_bind, simp)
  apply (rule post_bind[OF stackoverflow_discover_post])
   apply simp
  apply (rule post_print_bind)
  apply (rule post_ok)
  apply (rule post_weaken[OF for_each_post[OF stackoverflow_visit_post]])
  apply (auto simp: gotos_append intro: for_each_final)
  done

lemma devto_work_post:
  "post (devto_work pw query max_profiles ex)
     (\<lambda>r t. list_all browsing t \<and> begins devto_url t \<and>
            (\<forall>ps. r = Inr ps \<longrightarrow> final ex max_profiles ps))"
  unfolding devto_work_def goto_def
  apply (rule post_bind[OF open_page_post])
   apply (simp add: begins_def)
  apply (rule post_weaken[where P="\<lambda>r t. list_all browsing t \<and>
            (\<exists>rest. gotos t = devto_url # rest) \<and>
            (\<forall>ps. r = Inr ps \<longrightarrow> final ex max_profiles ps)"])
   prefer 2 apply (simp add: begins_def gotos_append)
  apply (rule post_invoke_bind, simp)
  apply (rule post_bind[OF scroll_post])
   apply simp
  apply (rule post_bind[OF devto_discover_post])
   apply simp
  apply (rule post_print_bind)
  apply (rule post_ok)
  apply (rule post_weaken[OF until_scraped_post[OF devto_visit_post]])
  apply (auto simp: gotos_append intro: until_scraped_final)
  done

subsection \<open>The scrapers and the dispatcher\<close>

lemma final_Nil: "final ex max_profiles []"
  by (simp add: final_def fresh_def named_def)

lemma scrape_with_post:
  assumes "post work (\<lambda>r t. list_all browsing t \<and> begins url t \<and>
                          (\<forall>ps. r = Inr ps \<longrightarrow> final ex max_profiles ps))"
  shows "post (scrape_with pw line args work)
           (\<lambda>r t. begins url t \<and> (\<forall>ps. r = Inr ps \<longrightarrow> final ex max_profiles ps))"
  unfolding post_def
proof (intro allI impI)
  fix w r w' t
  assume "scrape_with pw line args work w = (r, w', t)"
  from scrape_with_shape[OF this] obtain pre mid suf where
    t: "t = pre @ mid @ suf" and pre: "list_all framing pre" and suf: "list_all framing suf"
    and mid: "(mid = [] \<and> (\<forall>ps. r = Inr ps \<longrightarrow> ps = [])) \<or>
              (\<exists>w1 r1 w2. work w1 = (r1, w2, mid) \<and> (\<forall>ps. r = Inr ps \<longrightarrow> ps = [] \<or> r1 = Inr ps))"
    by blast
  from mid have "begins url mid \<and> (\<forall>ps. r = Inr ps \<longrightarrow> final ex max_profiles ps)"
  proof
    assume "mid = [] \<and> (\<forall>ps. r = Inr ps \<longrightarrow> ps = [])"
    then show ?thesis by (auto simp: begins_def final_Nil)
  next
    assume "\<exists>w1 r1 w2. work w1 = (r1, w2, mid) \<and> (\<forall>ps. r = Inr ps \<longrightarrow> ps = [] \<or> r1 = Inr ps)"
    then obtain w1 r1 w2 where wk: "work w1 = (r1, w2, mid)"
      and r: "\<forall>ps. r = Inr ps \<longrightarrow> ps = [] \<or> r1 = Inr ps" by blast
    from postD[OF assms wk] r show ?thesis by (auto simp: final_Nil)
  qed
  then show "begins url t \<and> (\<forall>ps. r = Inr ps \<longrightarrow> final ex max_profiles ps)"
    by (simp add: t begins_framed[OF pre suf])
qed

lemma scrape_github_profiles_post:
  "post (scrape_github_profiles pw query loc max_profiles ex)
     (\<lambda>r t. begins (github_search_url query loc) t \<and> (\<forall>ps. r = Inr ps \<longrightarrow> final ex max_profiles ps))"
  unfolding scrape_github_profiles_def by (rule scrape_with_post[OF github_work_post])

lemma scrape_behance_profiles_post:
  "post (scrape_behance_profiles pw query loc max_profiles ex)
     (\<lambda>r t. begins (behance_search_url query loc) t \<and> (\<forall>ps. r = Inr ps \<longrightarrow> final ex max_profiles ps))"
  unfolding scrape_behance_profiles_def by (rule scrape_with_post[OF behance_work_post])

lemma scrape_stackoverflow_profiles_post:
  "post (scrape_stackoverflow_profiles pw query loc max_profiles ex)
     (\<lambda>r t. begins stackoverflow_search_url t \<and> (\<forall>ps. r = Inr ps \<longrightarrow> final ex max_profiles ps))"
  unfolding scrape_stackoverflow_profiles_def by (rule scrape_with_post[OF stackoverflow_work_post])

lemma scrape_devto_profiles_post:
  "post (scrape_devto_profiles pw query max_profiles ex)
     (\<lambda>r t. begins devto_url t \<and> (\<forall>ps. r = Inr ps \<longrightarrow> final ex max_profiles ps))"
  unfolding scrape_devto_profiles_def by (rule scrape_with_post[OF devto_work_post])

lemma unknown_platform_post:
  "post (seq (print (LogUnknownPlatform p)) (\<lambda>_. pure (Inr [])))
     (\<lambda>r t. \<forall>ps. r = Inr ps \<longrightarrow> final ex max_profiles ps)"
  apply (rule post_seq[where P="\<lambda>r t. True"])
   apply (rule post_print, simp)
  apply (rule post_pure, simp add: final_Nil)
  done

lemma scrape_profiles_post:
  "post (scrape_profiles pw platform query loc max_profiles ex)
     (\<lambda>r t. \<forall>ps. r = Inr ps \<longrightarrow> final ex max_profiles ps)"
  unfolding scrape_profiles_def Let_def
  apply (rule post_seq[where P="\<lambda>r t. True"])
   apply (rule post_print, simp)
  apply (simp only: if_distrib[of "\<lambda>m. post m Q" for Q] simp_thms)
  apply (split if_split, intro conjI impI)
   apply (rule post_weaken[OF scrape_github_profiles_post], simp)
  apply (split if_split, intro conjI impI)
   apply (rule post_weaken[OF scrape_behance_profiles_post], simp)
  apply (split if_split, intro conjI impI)
   apply (rule post_weaken[OF scrape_stackoverflow_profiles_post], simp)
  apply (split if_split, intro conjI impI)
   apply (rule post_weaken[OF scrape_devto_profiles_post], simp)
  apply (rule unknown_platform_post)
  done

lemma scrape_results:
  "fst (scrape_github_profiles pw query loc max_profiles ex w) = Inr ps \<Longrightarrow> final ex max_profiles ps"
  "fst (scrape_behance_profiles pw query loc max_profiles ex w) = Inr ps \<Longrightarrow> final ex max_profiles ps"
  "fst (scrape_stackoverflow_profiles pw query loc max_profiles ex w) = Inr ps \<Longrightarrow> final ex max_profiles ps"
  "fst (scrape_devto_profiles pw query max_profiles ex w) = Inr ps \<Longrightarrow> final ex max_profiles ps"
  "fst (scrape_profiles pw platform query loc max_profiles ex w) = Inr ps \<Longrightarrow> final ex max_profiles ps"
  using postD[OF scrape_github_profiles_post, of pw query loc max_profiles ex w]
        postD[OF scrape_behance_profiles_post, of pw query loc max_profiles ex w]
        postD[OF scrape_stackoverflow_profiles_post, of pw query loc max_profiles ex w]
        postD[OF scrape_devto_profiles_post, of pw query max_profiles ex w]
        postD[OF scrape_profiles_post, of pw platform query loc max_profiles ex w]
  by (metis prod.collapse)+

lemma final_urls:
  "final ex max_profiles ps \<Longrightarrow>
     distinct (map profileUrl ps) \<and> set (map profileUrl ps) \<inter> set ex = {}"
  by (simp add: final_def fresh_def)

lemma final_named: "final ex max_profiles ps \<Longrightarrow> \<forall>p\<in>set ps. fullName p \<noteq> []"
  by (simp add: final_def named_def list_all_iff)

lemma final_length: "final ex max_profiles ps \<Longrightarrow> 0 \<le> max_profiles \<Longrightarrow> int (length ps) \<le> max_profiles"
  by (simp add: final_def)

lemma events_scrape_profiles:
  "events (scrape_profiles pw platform query loc max_profiles ex w) =
     Log (LogStart (py_lower platform) query loc max_profiles) #
     (if py_lower platform = ''github''
      then events (scrape_github_profiles pw query loc max_profiles ex w)
      else if py_lower platform = ''behance''
      then events (scrape_behance_profiles pw query loc max_profiles ex w)
      else if py_lower platform = ''stackoverflow''
      then events (scrape_stackoverflow_profiles pw query loc max_profiles ex w)
      else if py_lower platform = ''devto''
      then events (scrape_devto_profiles pw query max_profiles ex w)
      else [Log (LogUnknownPlatform (py_lower platform))])"
  by (simp add: scrape_profiles_def Let_def seq_def print_def pure_def events_def split: prod.splits)

lemma github_search_url_inj:
  "(github_search_url q1 l1 = github_search_url q2 l1 \<longleftrightarrow> q1 = q2) \<and>
   (github_search_url q1 l1 = github_search_url q1 l2 \<longleftrightarrow> l1 = l2)"
  by (simp add: github_search_url_def)

lemma behance_search_url_inj:
  "(behance_search_url q1 l1 = behance_search_url q2 l1 \<longleftrightarrow> q1 = q2) \<and>
   (behance_search_url q1 l1 = behance_search_url q1 l2 \<longleftrightarrow> l1 = l2)"
  by (simp add: behance_search_url_def)

lemma scrape_begins:
  "begins (github_search_url query loc) (events (scrape_github_profiles pw query loc max_profiles ex w))"
  "begins (behance_search_url query loc) (events (scrape_behance_profiles pw query loc max_profiles ex w))"
  "begins stackoverflow_search_url (events (scrape_stackoverflow_profiles pw query loc max_profiles ex w))"
  "begins devto_url (events (scrape_devto_profiles pw query max_profiles ex w))"
  by (rule post_run[OF scrape_github_profiles_post, THEN conjunct1]
      post_run[OF scrape_behance_profiles_post, THEN conjunct1]
      post_run[OF scrape_stackoverflow_profiles_post, THEN conjunct1]
      post_run[OF scrape_devto_profiles_post, THEN conjunct1])+

lemma handler_closes:
  assumes "handler pw line e browser ps w = (r, w', t)"
  shows "\<not> launched t \<and> closes t = (if browser then [InHandler] else [])"
  using assms
  by (auto simp: handler_def bind_def ok_def print_def pure_def close_def invoke_def launched_def
           split: prod.splits sum.splits if_splits)

lemma session_closes:
  assumes run: "session pw args work w = ((raised, browser, ps), w', t)"
    and work: "post work (\<lambda>r t. list_all browsing t)"
  shows "(launched t \<longleftrightarrow> browser) \<and> (closes t = [] \<or> closes t = [AfterLoop]) \<and>
         (\<not> browser \<longrightarrow> closes t = []) \<and> (raised = None \<longrightarrow> browser \<and> closes t = [AfterLoop])"
proof (cases "launch pw args w")
  case (fields l w1 t1)
  have t1: "t1 = [Call (Launch args) (\<not> isl l)]"
    using fields by (auto simp: launch_def invoke_def split: prod.splits)
  show ?thesis
  proof (cases l)
    case (Inl e)
    with fields run t1 show ?thesis
      by (auto simp: session_def launched_def)
  next
    case (Inr u)
    obtain r1 w2 t2 where wk: "work w1 = (r1, w2, t2)"
      by (cases "work w1") auto
    note b = browsing_closes[OF postD[OF work wk]]
    show ?thesis
    proof (cases r1)
      case (Inl e)
      with fields Inr wk run have "t = t1 @ t2" "raised = Some e" "browser"
        by (auto simp: session_def)
      with t1 Inr b show ?thesis
        by (auto simp: closes_append launched_append launched_def)
    next
      case found: (Inr profiles)
      obtain c w3 t3 where cl: "close pw AfterLoop w2 = (c, w3, t3)"
        by (cases "close pw AfterLoop w2") auto
      have t3: "t3 = [Call (Close AfterLoop) (\<not> isl c)]"
        using cl by (auto simp: close_def invoke_def split: prod.splits)
      from fields Inr wk found cl run have "t = t1 @ t2 @ t3" "browser"
        by (auto simp: session_def split: sum.splits)
      with t1 t3 Inr b show ?thesis
        by (auto simp: closes_append launched_append launched_def)
    qed
  qed
qed

lemma scrape_with_closes:
  assumes run: "scrape_with pw line args work w = (r, w', t)"
    and work: "post work (\<lambda>r t. list_all browsing t)"
  shows "(launched t \<longrightarrow> closes t \<in> {[AfterLoop], [InHandler], [AfterLoop, InHandler]}) \<and>
         (\<not> launched t \<longrightarrow> closes t = [])"
proof (cases "start pw w")
  case (fields st w1 t1)
  have t1: "t1 = [Call Start (\<not> isl st)]"
    using fields by (auto simp: start_def invoke_def split: prod.splits)
  show ?thesis
  proof (cases st)
    case (Inl e)
    obtain r4 w4 t4 where h: "handler pw line e False [] w1 = (r4, w4, t4)"
      by (cases "handler pw line e False [] w1") auto
    with Inl fields run have "t = t1 @ t4"
      by (auto simp: scrape_with_def)
    with t1 handler_closes[OF h] show ?thesis
      by (auto simp: closes_append launched_append launched_def)
  next
    case (Inr u)
    obtain raised browser ps w2 t2 where se: "session pw args work w1 = ((raised, browser, ps), w2, t2)"
      by (cases "session pw args work w1") auto
    obtain stopped w3 t3 where sp: "stop pw w2 = (stopped, w3, t3)"
      by (cases "stop pw w2") auto
    have t3: "t3 = [Call Stop (\<not> isl stopped)]"
      using sp by (auto simp: stop_def invoke_def split: prod.splits)
    note s = session_closes[OF se work]
    show ?thesis
    proof (cases "case stopped of Inl e \<Rightarrow> Some e | Inr _ \<Rightarrow> raised")
      case None
      with fields Inr se sp run have "t = t1 @ t2 @ t3" "raised = None"
        by (auto simp: scrape_with_def split: sum.splits)
      with t1 t3 s show ?thesis
        by (auto simp: closes_append launched_append launched_def)
    next
      case (Some e)
      obtain r4 w4 t4 where h: "handler pw line e browser ps w3 = (r4, w4, t4)"
        by (cases "handler pw line e browser ps w3") auto
      with Some fields Inr se sp run have "t = t1 @ t2 @ t3 @ t4"
        by (auto simp: scrape_with_def)
      with t1 t3 s handler_closes[OF h] show ?thesis
        by (auto simp: closes_append launched_append launched_def)
    qed
  qed
qed

lemma handler_raises:
  assumes "handler pw line e browser ps w = (Inl e', w', t)"
  shows "t \<noteq> [] \<and> last t = Call (Close InHandler) False"
  using assms
  by (auto simp: handler_def bind_def ok_def print_def pure_def close_def invoke_def
           split: prod.splits sum.splits if_splits)

lemma scrape_with_raises:
  assumes "scrape_with pw line args work w = (Inl e, w', t)"
  shows "t \<noteq> [] \<and> last t = Call (Close InHandler) False"
  using assms
  by (auto simp: scrape_with_def split: prod.splits sum.splits option.splits
           dest!: handler_raises)

text \<open>
  An exception leaves \<open>scrape_profiles\<close> in one way only: the \<open>browser.close()\<close> of a
  handler raised; it is the last call of the run.
\<close>

lemma raises_only_from_handler_close:
  assumes "fst (scrape_profiles pw platform query loc max_profiles ex w) = Inl e"
  shows "last (events (scrape_profiles pw platform query loc max_profiles ex w))
           = Call (Close InHandler) False"
  using assms
  unfolding scrape_profiles_def Let_def scrape_github_profiles_def scrape_behance_profiles_def
    scrape_stackoverflow_profiles_def scrape_devto_profiles_def
  apply (simp split: if_splits add: seq_def print_def pure_def events_def split: prod.splits)
  apply (auto dest!: scrape_with_raises)
  done

lemma scrape_with_released:
  assumes "post work (\<lambda>r t. list_all browsing t \<and> Q r t)"
  shows "released (events (scrape_with pw line args work w))"
proof -
  have work: "post work (\<lambda>r t. list_all browsing t)"
    by (rule post_weaken[OF assms]) simp
  obtain r w' t where run: "scrape_with pw line args work w = (r, w', t)"
    by (cases "scrape_with pw line args work w") auto
  from scrape_with_closes[OF run work] run show ?thesis
    by (simp add: released_def events_def)
qed

lemma scrape_released:
  "released (events (scrape_github_profiles pw query loc max_profiles ex w))"
  "released (events (scrape_behance_profiles pw query loc max_profiles ex w))"
  "released (events (scrape_stackoverflow_profiles pw query loc max_profiles ex w))"
  "released (events (scrape_devto_profiles pw query max_profiles ex w))"
  unfolding scrape_github_profiles_def scrape_behance_profiles_def
    scrape_stackoverflow_profiles_def scrape_devto_profiles_def
  by (rule scrape_with_released[OF github_work_post] scrape_with_released[OF behance_work_post]
      scrape_with_released[OF stackoverflow_work_post] scrape_with_released[OF devto_work_post])+

text \<open>
  When the \<open>browser.close()\<close> behind the loop raised, or the stop of Playwright after a
  launch, the handler closes the browser as well.
\<close>

lemma closes_mem: "Call (Close at) b \<in> set t \<Longrightarrow> at \<in> set (closes t)"
  by (induction t rule: closes.induct) auto

lemma browsing_stop: "list_all browsing t \<Longrightarrow> Call Stop b \<notin> set t \<and> Call (Close at) b \<notin> set t"
  by (auto simp: list_all_iff)

lemma session_failed_close:
  assumes run: "session pw args work w = ((raised, browser, ps), w', t)"
    and work: "post work (\<lambda>r t. list_all browsing t)"
  shows "Call Stop b \<notin> set t \<and> (Call (Close AfterLoop) False \<in> set t \<longrightarrow> raised \<noteq> None)"
proof (cases "launch pw args w")
  case (fields l w1 t1)
  have t1: "t1 = [Call (Launch args) (\<not> isl l)]"
    using fields by (auto simp: launch_def invoke_def split: prod.splits)
  show ?thesis
  proof (cases l)
    case (Inl e)
    with fields run t1 show ?thesis
      by (auto simp: session_def)
  next
    case (Inr u)
    obtain r1 w2 t2 where wk: "work w1 = (r1, w2, t2)"
      by (cases "work w1") auto
    note b = browsing_stop[OF postD[OF work wk]]
    show ?thesis
    proof (cases r1)
      case (Inl e)
      with fields Inr wk run have "t = t1 @ t2" "raised = Some e"
        by (auto simp: session_def)
      with t1 b show ?thesis
        by auto
    next
      case found: (Inr profiles)
      obtain c w3 t3 where cl: "close pw AfterLoop w2 = (c, w3, t3)"
        by (cases "close pw AfterLoop w2") auto
      have t3: "t3 = [Call (Close AfterLoop) (\<not> isl c)]"
        using cl by (auto simp: close_def invoke_def split: prod.splits)
      from fields Inr wk found cl run have "t = t1 @ t2 @ t3" "isl c \<longrightarrow> raised \<noteq> None"
        by (auto simp: session_def split: sum.splits)
      with t1 t3 b show ?thesis
        by auto
    qed
  qed
qed

lemma failed_release_reaches_handler:
  assumes run: "scrape_with pw line args work w = (r, w', t)"
    and work: "post work (\<lambda>r t. list_all browsing t)"
  shows "(Call (Close AfterLoop) False \<in> set t \<longrightarrow> closes t = [AfterLoop, InHandler]) \<and>
         (launched t \<and> Call Stop False \<in> set t \<longrightarrow>
            closes t \<in> {[InHandler], [AfterLoop, InHandler]})"
proof (cases "start pw w")
  case (fields st w1 t1)
  have t1: "t1 = [Call Start (\<not> isl st)]"
    using fields by (auto simp: start_def invoke_def split: prod.splits)
  show ?thesis
  proof (cases st)
    case (Inl e)
    obtain r4 w4 t4 where h: "handler pw line e False [] w1 = (r4, w4, t4)"
      by (cases "handler pw line e False [] w1") auto
    with Inl fields run have "t = t1 @ t4"
      by (auto simp: scrape_with_def)
    with t1 handler_closes[OF h] closes_mem[of AfterLoop False t4] show ?thesis
      by (auto simp: closes_append launched_append launched_def)
  next
    case (Inr u)
    obtain raised browser ps w2 t2 where se: "session pw args work w1 = ((raised, browser, ps), w2, t2)"
      by (cases "session pw args work w1") auto
    obtain stopped w3 t3 where sp: "stop pw w2 = (stopped, w3, t3)"
      by (cases "stop pw w2") auto
    have t3: "t3 = [Call Stop (\<not> isl stopped)]"
      using sp by (auto simp: stop_def invoke_def split: prod.splits)
    note s = session_closes[OF se work]
    note f = session_failed_close[OF se work, of False]
    show ?thesis
    proof (cases "case stopped of Inl e \<Rightarrow> Some e | Inr _ \<Rightarrow> raised")
      case None
      with fields Inr se sp run have "t = t1 @ t2 @ t3" "raised = None" "\<not> isl stopped"
        by (auto simp: scrape_with_def split: sum.splits)
      with t1 t3 f show ?thesis
        by auto
    next
      case (Some e)
      obtain r4 w4 t4 where h: "handler pw line e browser ps w3 = (r4, w4, t4)"
        by (cases "handler pw line e browser ps w3") auto
      with Some fields Inr se sp run have t: "t = t1 @ t2 @ t3 @ t4"
        by (auto simp: scrape_with_def)
      have c: "closes t = closes t2 @ (if browser then [InHandler] else [])"
        using t t1 t3 handler_closes[OF h] by (simp add: closes_append)
      have l: "launched t \<longleftrightarrow> browser"
        using t t1 t3 s handler_closes[OF h] by (auto simp: launched_append launched_def)
      have a: "Call (Close AfterLoop) False \<in> set t \<Longrightarrow> closes t2 = [AfterLoop] \<and> browser"
      proof -
        assume "Call (Close AfterLoop) False \<in> set t"
        then have "AfterLoop \<in> set (closes t)" by (rule closes_mem)
        with c have "AfterLoop \<in> set (closes t2)" by (auto split: if_splits)
        with s show ?thesis by auto
      qed
      from a c l s show ?thesis by auto
    qed
  qed
qed

lemma scrape_with_failed_close:
  assumes "post work (\<lambda>r t. list_all browsing t \<and> Q r t)"
    and "Call (Close AfterLoop) False \<in> set (events (scrape_with pw line args work w))"
  shows "closes (events (scrape_with pw line args work w)) = [AfterLoop, InHandler]"
proof -
  have work: "post work (\<lambda>r t. list_all browsing t)"
    by (rule post_weaken[OF assms(1)]) simp
  obtain r w' t where run: "scrape_with pw line args work w = (r, w', t)"
    by (cases "scrape_with pw line args work w") auto
  from failed_release_reaches_handler[OF run work] run assms(2) show ?thesis
    by (simp add: events_def)
qed

lemma scrape_with_failed_stop:
  assumes "post work (\<lambda>r t. list_all browsing t \<and> Q r t)"
    and "launched (events (scrape_with pw line args work w))"
    and "Call Stop False \<in> set (events (scrape_with pw line args work w))"
  shows "closes (events (scrape_with pw line args work w)) \<in> {[InHandler], [AfterLoop, InHandler]}"
proof -
  have work: "post work (\<lambda>r t. list_all browsing t)"
    by (rule post_weaken[OF assms(1)]) simp
  obtain r w' t where run: "scrape_with pw line args work w = (r, w', t)"
    by (cases "scrape_with pw line args work w") auto
  from failed_release_reaches_handler[OF run work] run assms(2,3) show ?thesis
    by (simp add: events_def)
qed

lemma scrape_failed_close:
  "Call (Close AfterLoop) False \<in> set (events (scrape_github_profiles pw query loc max_profiles ex w))
     \<Longrightarrow> closes (events (scrape_github_profiles pw query loc max_profiles ex w)) = [AfterLoop, InHandler]"
  "Call (Close AfterLoop) False \<in> set (events (scrape_behance_profiles pw query loc max_profiles ex w))
     \<Longrightarrow> closes (events (scrape_behance_profiles pw query loc max_profiles ex w)) = [AfterLoop, InHandler]"
  "Call (Close AfterLoop) False \<in> set (events (scrape_stackoverflow_profiles pw query loc max_profiles ex w))
     \<Longrightarrow> closes (events (scrape_stackoverflow_profiles pw query loc max_profiles ex w)) = [AfterLoop, InHandler]"
  "Call (Close AfterLoop) False \<in> set (events (scrape_devto_profiles pw query max_profiles ex w))
     \<Longrightarrow> closes (events (scrape_devto_profiles pw query max_profiles ex w)) = [AfterLoop, InHandler]"
  unfolding scrape_github_profiles_def scrape_behance_profiles_def
    scrape_stackoverflow_profiles_def scrape_devto_profiles_def
  by (erule scrape_with_failed_close[OF github_work_post]
      scrape_with_failed_close[OF behance_work_post]
      scrape_with_failed_close[OF stackoverflow_work_post]
      scrape_with_failed_close[OF devto_work_post])+

lemma scrape_failed_stop:
  "launched (events (scrape_github_profiles pw query loc max_profiles ex w)) \<Longrightarrow>
   Call Stop False \<in> set (events (scrape_github_profiles pw query loc max_profiles ex w)) \<Longrightarrow>
   closes (events (scrape_github_profiles pw query loc max_profiles ex w))
     \<in> {[InHandler], [AfterLoop, InHandler]}"
  "launched (events (scrape_behance_profiles pw query loc max_profiles ex w)) \<Longrightarrow>
   Call Stop False \<in> set (events (scrape_behance_profiles pw query loc max_profiles ex w)) \<Longrightarrow>
   closes (events (scrape_behance_profiles pw query loc max_profiles ex w))
     \<in> {[InHandler], [AfterLoop, InHandler]}"
  "launched (events (scrape_stackoverflow_profiles pw query loc max_profiles ex w)) \<Longrightarrow>
   Call Stop False \<in> set (events (scrape_stackoverflow_profiles pw query loc max_profiles ex w)) \<Longrightarrow>
   closes (events (scrape_stackoverflow_profiles pw query loc max_profiles ex w))
     \<in> {[InHandler], [AfterLoop, InHandler]}"
  "launched (events (scrape_devto_profiles pw query max_profiles ex w)) \<Longrightarrow>
   Call Stop False \<in> set (events (scrape_devto_profiles pw query max_profiles ex w)) \<Longrightarrow>
   closes (events (scrape_devto_profiles pw query max_profiles ex w))
     \<in> {[InHandler], [AfterLoop, InHandler]}"
  unfolding scrape_github_profiles_def scrape_behance_profiles_def
    scrape_stackoverflow_profiles_def scrape_devto_profiles_def
  by (erule (1) scrape_with_failed_stop[OF github_work_post]
      scrape_with_failed_stop[OF behance_work_post]
      scrape_with_failed_stop[OF stackoverflow_work_post]
      scrape_with_failed_stop[OF devto_work_post])+

subsection \<open>Skills on a steady page\<close>

lemma inner_text_steady:
  assumes "steady pw label els"
  shows "post (attempt (inner_text pw el)) (\<lambda>r t. r = Some (label el))"
  unfolding inner_text_def
  apply (rule post_attempt, rule post_invoke_fst)
  using assms by (simp add: steady_def)

lemma query_selector_all_steady:
  assumes "steady pw label els"
  shows "post (attempt (query_selector_all pw sel)) (\<lambda>r t. r = Some els)"
  unfolding query_selector_all_def
  apply (rule post_attempt, rule post_invoke_fst)
  using assms by (simp add: steady_def)

lemma seen_loop_steady:
  assumes st: "steady pw label all"
  shows "distinct got \<Longrightarrow> seen = set got \<Longrightarrow>
   post (seen_loop pw els got seen)
     (\<lambda>r t. \<exists>new. r = got @ new \<and> distinct r \<and> set new = set (shown label els) - set got \<and>
                   subseq new (shown label els))"
proof (induction els arbitrary: got seen)
  case Nil
  then show ?case by (simp add: post_pure shown_def)
next
  case (Cons el els)
  let ?s = "py_strip (label el)"
  show ?case
    apply simp
    apply (rule post_seq[OF inner_text_steady[OF st]])
    apply (simp add: Let_def)
    apply (intro conjI impI)
     apply (rule post_weaken[OF Cons.IH[of "got @ [?s]" "insert ?s seen"]])
    using Cons.prems apply simp
    using Cons.prems apply simp
     apply (auto simp: shown_def)[1]
     apply (rule post_weaken[OF Cons.IH[OF Cons.prems]])
    using Cons.prems apply (auto simp: shown_def)[1]
    apply (rule post_weaken[OF Cons.IH[OF Cons.prems]])
    using Cons.prems apply (auto simp: shown_def)[1]
    done
qed

lemma behance_skills_loop_steady:
  assumes st: "steady pw label all"
  shows "post (behance_skills_loop pw els got)
     (\<lambda>r t. r = got @ filter (\<lambda>s. s \<noteq> [] \<and> length s < 50) (map (\<lambda>el. py_strip (label el)) els))"
proof (induction els arbitrary: got)
  case Nil
  then show ?case by (simp add: post_pure)
next
  case (Cons el els)
  define kept where
    "kept = (\<lambda>xs. filter (\<lambda>s. s \<noteq> [] \<and> length s < 50) (map (\<lambda>el. py_strip (label el)) xs))"
  have IH: "post (behance_skills_loop pw els g) (\<lambda>r t. r = g @ kept els)" for g
    unfolding kept_def by (rule Cons.IH)
  have "post (behance_skills_loop pw (el # els) got) (\<lambda>r t. r = got @ kept (el # els))"
    apply (subst behance_skills_loop.simps)
    apply (rule post_seq[OF inner_text_steady[OF st]])
    apply (simp add: Let_def)
    apply (intro conjI impI)
      apply (rule post_weaken[OF IH], simp add: kept_def)
     apply (rule post_weaken[OF IH], simp add: kept_def)
    apply (rule post_weaken[OF IH], simp add: kept_def)
    done
  then show ?case by (simp add: kept_def)
qed

lemma github_skills_steady:
  assumes "steady pw label els"
  shows "post (github_skills pw)
           (\<lambda>r t. set r = set (shown label els) \<and> subseq r (shown label els))"
  unfolding github_skills_def
  apply (rule post_seq[OF query_selector_all_steady[OF assms]])
  apply simp
  apply (rule post_weaken[OF seen_loop_steady[OF assms]])
  apply auto
  done

lemma stackoverflow_skills_steady:
  assumes "steady pw label els"
  shows "post (stackoverflow_skills pw)
           (\<lambda>r t. set r = set (shown label (take 15 els)) \<and> subseq r (shown label (take 15 els)))"
  unfolding stackoverflow_skills_def
  apply (rule post_seq[OF query_selector_all_steady[OF assms]])
  apply simp
  apply (rule post_weaken[OF seen_loop_steady[OF assms]])
  apply auto
  done

lemma behance_skills_steady:
  assumes "steady pw label els"
  shows "post (behance_skills pw)
           (\<lambda>r t. r = filter (\<lambda>s. s \<noteq> [] \<and> length s < 50)
                         (map (\<lambda>el. py_strip (label el)) (take 10 els)))"
  unfolding behance_skills_def
  apply (rule post_seq[OF query_selector_all_steady[OF assms]])
  apply simp
  apply (rule post_weaken[OF behance_skills_loop_steady[OF assms]])
  apply simp
  done

lemma extract_github_profile_steady:
  assumes "steady pw label els"
  shows "post (extract_github_profile pw url)
     (\<lambda>p t. set (skills p) = set (shown label els) \<and> subseq (skills p) (shown label els))"
  unfolding extract_github_profile_def
  apply (rule post_seq[OF post_any], simp del: first_text.simps)
  apply (rule post_seq[OF post_any], simp del: first_text.simps)
  apply (rule post_seq[OF post_any], simp del: first_text.simps)
  apply (rule post_seq[OF post_any], simp del: first_text.simps)
  apply (rule post_seq[OF github_skills_steady[OF assms]], simp del: first_text.simps)
  apply (rule post_pure, simp add: new_profile_def)
  done

lemma extract_stackoverflow_profile_steady:
  assumes "steady pw label els"
  shows "post (extract_stackoverflow_profile pw url)
     (\<lambda>p t. set (skills p) = set (shown label (take 15 els)) \<and>
            subseq (skills p) (shown label (take 15 els)))"
  unfolding extract_stackoverflow_profile_def
  apply (rule post_seq[OF post_any], simp del: first_text.simps)
  apply (rule post_seq[OF post_any], simp del: first_text.simps)
  apply (rule post_seq[OF post_any], simp del: first_text.simps)
  apply (rule post_seq[OF stackoverflow_skills_steady[OF assms]], simp del: first_text.simps)
  apply (rule post_pure, simp add: new_profile_def)
  done

lemma extract_behance_profile_steady:
  assumes "steady pw label els"
  shows "post (extract_behance_profile pw url)
     (\<lambda>p t. skills p = filter (\<lambda>s. s \<noteq> [] \<and> length s < 50)
                         (map (\<lambda>el. py_strip (label el)) (take 10 els)))"
  unfolding extract_behance_profile_def
  apply (rule post_seq[OF post_any], simp del: first_text.simps)
  apply (rule post_seq[OF post_any], simp del: first_text.simps)
  apply (rule post_seq[OF post_any], simp del: first_text.simps)
  apply (rule post_seq[OF behance_skills_steady[OF assms]], simp del: first_text.simps)
  apply (rule post_pure, simp add: new_profile_def)
  done

subsection \<open>What the scan of the markup adds\<close>

lemma href_match_shape:
  assumes "href_match lit s = Some (g, rest)"
  shows "\<exists>run. g = lit @ run \<and> run \<noteq> [] \<and> list_all href_char run"
proof -
  from assms obtain r where "g = lit @ takeWhile href_char r" "takeWhile href_char r \<noteq> []"
    by (auto simp: href_match_def Let_def split: if_splits)
  moreover have "list_all href_char (takeWhile href_char r)"
    by (simp add: list_all_iff) (meson set_takeWhileD)
  ultimately show ?thesis by blast
qed

lemma re_findall_href_shape:
  "m \<in> set (re_findall_href lit s) \<Longrightarrow> \<exists>run. m = lit @ run \<and> run \<noteq> [] \<and> list_all href_char run"
proof (induction lit s rule: re_findall_href.induct)
  case (1 lit)
  then show ?case by simp
next
  case (2 lit c cs)
  show ?case
  proof (cases "href_match lit (c # cs)")
    case None
    with 2 show ?thesis by simp
  next
    case (Some a)
    obtain g rest where a: "a = (g, rest)" by (cases a)
    with Some 2 href_match_shape[of lit "c # cs" g rest] show ?thesis by auto
  qed
qed

lemma slash_not_href_char: "list_all href_char run \<Longrightarrow> CHR ''/'' \<notin> set run"
  by (auto simp: list_all_iff href_char_def)

lemma github_match_new:
  assumes "list_all href_char run" "run \<noteq> []"
  shows "set (github_match ex urls (''/'' @ run)) \<subseteq> set urls \<union> {u. github_profile_path u} \<and>
         prefix urls (github_match ex urls (''/'' @ run))"
  using assms slash_not_href_char[OF assms(1)]
  by (auto simp: github_match_def add_url_def github_profile_path_def Let_def py_count_def)

lemma github_fold_new:
  assumes "\<forall>m\<in>set ms. \<exists>run. m = ''/'' @ run \<and> run \<noteq> [] \<and> list_all href_char run"
  shows "set (foldl (github_match ex) urls ms) \<subseteq> set urls \<union> {u. github_profile_path u} \<and>
         prefix urls (foldl (github_match ex) urls ms)"
  using assms
proof (induction ms arbitrary: urls)
  case Nil
  show ?case by simp
next
  case (Cons m ms)
  then obtain run where m: "m = ''/'' @ run" "run \<noteq> []" "list_all href_char run"
    by auto
  note step = github_match_new[OF m(3) m(2), of ex urls]
  from Cons have "set (foldl (github_match ex) (github_match ex urls m) ms)
                    \<subseteq> set (github_match ex urls m) \<union> {u. github_profile_path u} \<and>
                  prefix (github_match ex urls m) (foldl (github_match ex) (github_match ex urls m) ms)"
    by simp
  with step m(1) show ?case
    by (auto dest: prefix_order.order_trans)
qed

lemma colon_not_href_char: "list_all href_char run \<Longrightarrow> CHR '':'' \<notin> set run"
  by (auto simp: list_all_iff href_char_def)

lemma question_not_href_char: "list_all href_char run \<Longrightarrow> CHR ''?'' \<notin> set run"
  by (auto simp: list_all_iff href_char_def)

lemma py_remove_none:
  "x \<in> set old \<Longrightarrow> x \<notin> set run \<Longrightarrow> py_remove old run = run"
proof (induction run)
  case Nil
  show ?case by simp
next
  case (Cons c cs)
  have "\<not> prefix old (c # cs)"
    using set_mono_prefix[of old "c # cs"] Cons.prems by auto
  with Cons show ?case by simp
qed

lemma py_remove_prefix: "old \<noteq> [] \<Longrightarrow> py_remove old (old @ run) = py_remove old run"
  by (cases old) auto

lemma behance_path:
  assumes "list_all href_char run"
  shows "py_split_first (CHR ''?'')
           (py_split_first (CHR ''/'') (py_remove ''https://www.behance.net/'' (''https://www.behance.net/'' @ run)))
         = run"
proof -
  define old where "old = ''https://www.behance.net/''"
  have old: "old \<noteq> []" "CHR '':'' \<in> set old"
    by (simp_all add: old_def)
  have "py_remove old (old @ run) = run"
    using py_remove_prefix[OF old(1), of run] py_remove_none[OF old(2) colon_not_href_char[OF assms]]
    by simp
  moreover have "takeWhile (\<lambda>d. d \<noteq> CHR ''/'') run = run"
    using slash_not_href_char[OF assms] by (auto simp: takeWhile_eq_all_conv)
  moreover have "takeWhile (\<lambda>d. d \<noteq> CHR ''?'') run = run"
    using question_not_href_char[OF assms] by (auto simp: takeWhile_eq_all_conv)
  ultimately show ?thesis
    unfolding old_def by (simp only: py_split_first_def)
qed

lemma behance_match_new:
  assumes "list_all href_char run"
  shows "set (behance_match ex urls (''https://www.behance.net/'' @ run))
           \<subseteq> set urls \<union> {u. behance_profile_path u}"
  unfolding behance_match_def behance_path[OF assms] Let_def
  using assms by (auto simp: behance_profile_path_def)

lemma behance_fold_new:
  assumes "\<forall>m\<in>set ms. \<exists>run. m = ''https://www.behance.net/'' @ run \<and> run \<noteq> [] \<and> list_all href_char run"
  shows "set (foldl (behance_match ex) urls ms) \<subseteq> set urls \<union> {u. behance_profile_path u}"
  using assms
proof (induction ms arbitrary: urls)
  case Nil
  show ?case by simp
next
  case (Cons m ms)
  then obtain run where m: "m = ''https://www.behance.net/'' @ run" "list_all href_char run"
    by auto
  note step = behance_match_new[OF m(2), of ex urls]
  from Cons have "set (foldl (behance_match ex) (behance_match ex urls m) ms)
                    \<subseteq> set (behance_match ex urls m) \<union> {u. behance_profile_path u}"
    by simp
  with step m(1) show ?case by auto
qed

lemma github_discover_scan:
  assumes sel: "github_selectors pw ex github_selector_list [] w = (urls, w1, t1)"
  shows "scans (events (github_discover pw ex w)) = (if length urls < 3 then 1 else 0) \<and>
         (3 \<le> length urls \<longrightarrow> fst (github_discover pw ex w) = Inr urls) \<and>
         (\<forall>found. fst (github_discover pw ex w) = Inr found \<longrightarrow>
            prefix urls found \<and> (\<forall>u\<in>set found - set urls. github_profile_path u))"
proof -
  have t1: "scans t1 = 0"
    using postD[OF github_selectors_post[OF fresh_Nil] sel] by (simp add: reading_scans)
  show ?thesis
  proof (cases "length urls < 3")
    case False
    with sel t1 show ?thesis
      by (simp add: github_discover_def bind_def ok_def pure_def events_def)
  next
    case True
    obtain c w2 where c: "pw_content pw w1 = (c, w2)"
      by (cases "pw_content pw w1") auto
    show ?thesis
    proof (cases c)
      case (Inl e)
      with sel t1 True c show ?thesis
        by (simp add: github_discover_def bind_def ok_def pure_def events_def content_def
            invoke_def scans_append)
    next
      case (Inr markup)
      let ?found = "foldl (github_match ex) urls (re_findall_href ''/'' markup)"
      from sel t1 True c Inr
      have run: "fst (github_discover pw ex w) = Inr ?found"
        "scans (events (github_discover pw ex w)) = 1"
        by (simp_all add: github_discover_def bind_def ok_def pure_def events_def content_def
            invoke_def scans_append)
      have "\<forall>m\<in>set (re_findall_href ''/'' markup).
              \<exists>run. m = ''/'' @ run \<and> run \<noteq> [] \<and> list_all href_char run"
        using re_findall_href_shape by blast
      from github_fold_new[OF this, of ex urls] run True show ?thesis
        by auto
    qed
  qed
qed

lemma behance_discover_scan:
  "scans (events (behance_discover pw ex w)) = 1 \<and>
   (\<forall>found. fst (behance_discover pw ex w) = Inr found \<longrightarrow> (\<forall>u\<in>set found. behance_profile_path u))"
proof -
  obtain c w2 where c: "pw_content pw w = (c, w2)"
    by (cases "pw_content pw w") auto
  show ?thesis
  proof (cases c)
    case (Inl e)
    with c show ?thesis
      by (simp add: behance_discover_def bind_def pure_def events_def content_def invoke_def)
  next
    case (Inr markup)
    let ?found = "foldl (behance_match ex) [] (re_findall_href ''https://www.behance.net/'' markup)"
    from c Inr
    have run: "fst (behance_discover pw ex w) = Inr ?found"
      "scans (events (behance_discover pw ex w)) = 1"
      by (simp_all add: behance_discover_def bind_def pure_def events_def content_def invoke_def)
    have "\<forall>m\<in>set (re_findall_href ''https://www.behance.net/'' markup).
            \<exists>run. m = ''https://www.behance.net/'' @ run \<and> run \<noteq> [] \<and> list_all href_char run"
      using re_findall_href_shape by blast
    from behance_fold_new[OF this, of ex "[]"] run show ?thesis
      by auto
  qed
qed

lemma selector_only_discover:
  "scans (events (stackoverflow_discover pw ex w)) = 0"
  "scans (events (devto_discover pw ex w)) = 0"
proof -
  have "post (stackoverflow_discover pw ex) (\<lambda>r t. scans t = 0)"
    unfolding stackoverflow_discover_def query_selector_all_def
    apply (rule post_invoke_bind, simp)
    apply simp
    apply (rule post_weaken[OF stackoverflow_links_post[OF fresh_Nil]])
    apply (simp add: reading_scans)
    done
  from post_run[OF this] show "scans (events (stackoverflow_discover pw ex w)) = 0" .
  have "post (devto_discover pw ex) (\<lambda>r t. scans t = 0)"
    unfolding devto_discover_def query_selector_all_def
    apply (rule post_invoke_bind, simp)
    apply simp
    apply (rule post_ok)
    apply (rule post_weaken[OF devto_links_post[OF fresh_Nil]])
    apply (simp add: reading_scans)
    done
  from post_run[OF this] show "scans (events (devto_discover pw ex w)) = 0" .
qed

subsection \<open>The cap\<close>

lemma bind_Inr:
  "bind m f w = (Inr b, w', t) \<Longrightarrow>
     \<exists>a w1 t1 t2. m w = (Inr a, w1, t1) \<and> f a w1 = (Inr b, w', t2) \<and> t = t1 @ t2"
  by (auto simp: bind_def split: prod.splits sum.splits)

lemma bind_assoc: "bind (bind m f) g = bind m (\<lambda>a. bind (f a) g)"
  by (rule ext) (auto simp: bind_def split: prod.splits sum.splits)

lemma until_scraped_counted:
  assumes body: "\<And>url. post (body url)
                   (\<lambda>r t. gotos t = [url] \<and> list_all browsing t \<and> visited url r)"
  shows "post (until_scraped body max_profiles urls scraped ps)
           (\<lambda>r t. \<exists>new. r = ps @ new \<and> prefix (gotos t) urls \<and>
                     subseq (map profileUrl new) (gotos t) \<and>
                     (scraped + int (length new) < max_profiles \<longrightarrow> gotos t = urls) \<and>
                     (gotos t \<noteq> [] \<longrightarrow>
                        scraped + int (length new) \<le> max_profiles \<and>
                        (scraped + int (length new) = max_profiles \<longrightarrow>
                           new \<noteq> [] \<and> profileUrl (last new) = last (gotos t))))"
proof (induction urls arbitrary: scraped ps)
  case Nil
  show ?case by (simp add: post_pure)
next
  case (Cons url urls)
  show ?case
    apply simp
    apply (intro conjI impI)
     apply (rule post_pure, simp)
    apply (rule post_seq[OF body])
    apply (clarsimp simp: gotos_append split: option.splits)
    apply (intro conjI impI allI)
     apply (rule post_weaken[OF Cons.IH])
     apply (elim exE conjE)
    subgoal for a t r t' new
      by (cases "gotos t' = []") (auto dest: list_emb_Nil2)
    apply (rule post_weaken[OF Cons.IH])
    apply (elim exE conjE)
    subgoal for a t p r t' new
      by (cases "gotos t' = []") (auto simp: visited_def dest: list_emb_Nil2)
    done
qed

text \<open>
  A scraper whose statements before the loop return: its navigations are the one of the
  search and those of the loop, and if it returns, it returns what the loop collected.
\<close>

lemma scrape_with_loop:
  assumes front: "bind (start pw) (\<lambda>_. bind (launch pw args) (\<lambda>_. front)) w = (Inr urls, w1, t1)"
    and url: "gotos t1 = [url]"
    and loop: "loop urls w1 = (ps, w2, t2)"
  shows "gotos (events (scrape_with pw line args
                  (bind front (\<lambda>urls. bind (ok (print (found urls))) (\<lambda>_. ok (loop urls)))) w))
           = url # gotos t2 \<and>
         (\<forall>ps'. fst (scrape_with pw line args
                  (bind front (\<lambda>urls. bind (ok (print (found urls))) (\<lambda>_. ok (loop urls)))) w)
                 = Inr ps' \<longrightarrow> ps' = ps)"
proof -
  let ?work = "bind front (\<lambda>urls. bind (ok (print (found urls))) (\<lambda>_. ok (loop urls)))"
  from bind_Inr[OF front] obtain a wa ta tr where
    st: "start pw w = (Inr a, wa, ta)"
    and r1: "bind (launch pw args) (\<lambda>_. front) wa = (Inr urls, w1, tr)" and t1: "t1 = ta @ tr"
    by blast
  from bind_Inr[OF r1] obtain b wb tb tc where
    la: "launch pw args wa = (Inr b, wb, tb)"
    and fr: "front wb = (Inr urls, w1, tc)" and tr: "tr = tb @ tc"
    by blast
  have wk: "?work wb = (Inr ps, w2, tc @ Log (found urls) # t2)"
    using fr loop by (simp add: bind_def ok_def print_def)
  obtain c w3 t3 where cl: "close pw AfterLoop w2 = (c, w3, t3)"
    by (cases "close pw AfterLoop w2") auto
  have f3: "list_all framing t3"
    using cl by (auto simp: close_def invoke_def split: prod.splits)
  have se: "session pw args ?work wa =
              ((case c of Inl e \<Rightarrow> Some e | Inr _ \<Rightarrow> None, True, ps), w3,
               tb @ (tc @ Log (found urls) # t2) @ t3)"
    using la wk cl by (auto simp: session_def split: sum.splits)
  obtain s w4 t4 where sp: "stop pw w3 = (s, w4, t4)"
    by (cases "stop pw w3") auto
  have f4: "list_all framing t4"
    using sp by (auto simp: stop_def invoke_def split: prod.splits)
  have "\<exists>r w5 t5. scrape_with pw line args ?work w =
                    (r, w5, ta @ (tb @ (tc @ Log (found urls) # t2) @ t3) @ t4 @ t5) \<and>
                  list_all framing t5 \<and> (\<forall>ps'. r = Inr ps' \<longrightarrow> ps' = ps)"
  proof (cases "case s of Inl e \<Rightarrow> Some e | Inr _ \<Rightarrow> (case c of Inl e \<Rightarrow> Some e | Inr _ \<Rightarrow> None)")
    case None
    with st se sp show ?thesis
      by (simp add: scrape_with_def)
  next
    case (Some e)
    obtain r5 w5 t5 where h: "handler pw line e True ps w4 = (r5, w5, t5)"
      by (cases "handler pw line e True ps w4") auto
    with Some st se sp have "scrape_with pw line args ?work w =
                    (r5, w5, ta @ (tb @ (tc @ Log (found urls) # t2) @ t3) @ t4 @ t5)"
      by (simp add: scrape_with_def)
    with handler_shape[OF h] show ?thesis by blast
  qed
  then obtain r w5 t5 where
    run: "scrape_with pw line args ?work w =
            (r, w5, ta @ (tb @ (tc @ Log (found urls) # t2) @ t3) @ t4 @ t5)"
    and f5: "list_all framing t5" and r: "\<forall>ps'. r = Inr ps' \<longrightarrow> ps' = ps"
    by blast
  have "gotos (ta @ tb @ tc) = [url]"
    using url t1 tr by simp
  then show ?thesis
    using run r framing_gotos[OF f3] framing_gotos[OF f4] framing_gotos[OF f5]
    by (simp add: events_def gotos_append)
qed

lemma github_candidates_gotos:
  "post (github_candidates pw query loc ex)
     (\<lambda>r t. \<not> isl r \<longrightarrow> gotos t = [github_search_url query loc])"
  unfolding github_candidates_def start_def launch_def goto_def
  apply (rule post_invoke_bind, simp)
  apply (rule post_invoke_bind, simp)
  apply (rule post_bind[OF open_page_post])
   apply simp
  apply (rule post_print_bind)
  apply (rule post_invoke_bind, simp)
  apply (rule post_weaken[OF github_discover_post])
  apply (simp add: gotos_append)
  done

lemma behance_candidates_gotos:
  "post (behance_candidates pw query loc ex)
     (\<lambda>r t. \<not> isl r \<longrightarrow> gotos t = [behance_search_url query loc])"
  unfolding behance_candidates_def start_def launch_def goto_def
  apply (rule post_invoke_bind, simp)
  apply (rule post_invoke_bind, simp)
  apply (rule post_bind[OF open_page_post])
   apply simp
  apply (rule post_print_bind)
  apply (rule post_invoke_bind, simp)
  apply (rule post_bind[OF scroll_post])
   apply simp
  apply (rule post_weaken[OF behance_discover_post])
  apply (simp add: gotos_append)
  done

lemma stackoverflow_candidates_gotos:
  "post (stackoverflow_candidates pw ex)
     (\<lambda>r t. \<not> isl r \<longrightarrow> gotos t = [stackoverflow_search_url])"
  unfolding stackoverflow_candidates_def start_def launch_def goto_def
  apply (rule post_invoke_bind, simp)
  apply (rule post_invoke_bind, simp)
  apply (rule post_bind[OF open_page_post])
   apply simp
  apply (rule post_print_bind)
  apply (rule post_invoke_bind, simp)
  apply (rule post_weaken[OF stackoverflow_discover_post])
  apply (simp add: gotos_append)
  done

lemma devto_candidates_gotos:
  "post (devto_candidates pw ex) (\<lambda>r t. \<not> isl r \<longrightarrow> gotos t = [devto_url])"
  unfolding devto_candidates_def start_def launch_def goto_def
  apply (rule post_invoke_bind, simp)
  apply (rule post_invoke_bind, simp)
  apply (rule post_bind[OF open_page_post])
   apply simp
  apply (rule post_invoke_bind, simp)
  apply (rule post_bind[OF scroll_post])
   apply simp
  apply (rule post_weaken[OF devto_discover_post])
  apply (simp add: gotos_append)
  done

lemma github_attempts:
  assumes "fst (github_candidates pw query loc ex w) = Inr urls"
  shows "gotos (events (scrape_github_profiles pw query loc max_profiles ex w))
           = github_search_url query loc # py_take max_profiles urls \<and>
         (\<forall>ps. fst (scrape_github_profiles pw query loc max_profiles ex w) = Inr ps \<longrightarrow>
               subseq (map profileUrl ps) (py_take max_profiles urls))"
proof -
  obtain w1 t1 where c: "github_candidates pw query loc ex w = (Inr urls, w1, t1)"
    using assms by (cases "github_candidates pw query loc ex w") auto
  have g1: "gotos t1 = [github_search_url query loc]"
    using postD[OF github_candidates_gotos c] by simp
  define loop where
    "loop = (\<lambda>urls. for_each (github_visit pw (min (int (length urls)) max_profiles)) 0
                      (py_take max_profiles urls) [])"
  obtain ps w2 t2 where l: "loop urls w1 = (ps, w2, t2)"
    by (cases "loop urls w1") auto
  have "post (loop urls)
          (\<lambda>r t. gotos t = py_take max_profiles urls \<and> list_all browsing t \<and>
                 (\<exists>new. r = [] @ new \<and> subseq (map profileUrl new) (py_take max_profiles urls) \<and>
                        named new))"
    unfolding loop_def by (rule for_each_post[OF github_visit_post])
  from postD[OF this l] have g2: "gotos t2 = py_take max_profiles urls"
    and sub: "subseq (map profileUrl ps) (py_take max_profiles urls)"
    by auto
  have eq: "scrape_github_profiles pw query loc max_profiles ex =
          scrape_with pw (LogScraperError ''GitHub'') [''--no-sandbox'', ''--disable-dev-shm-usage'']
            (bind (bind (open_page pw) (\<lambda>_.
                   bind (ok (print (LogSearching ''GitHub'' (github_search_url query loc)))) (\<lambda>_.
                   bind (goto pw (github_search_url query loc)) (\<lambda>_.
                   github_discover pw ex))))
               (\<lambda>urls. bind (ok (print (LogFound ''GitHub'' (length urls)))) (\<lambda>_. ok (loop urls))))"
    by (simp add: scrape_github_profiles_def github_work_def loop_def bind_assoc)
  show ?thesis
    unfolding eq
    using scrape_with_loop[where line="LogScraperError ''GitHub''"
        and found="\<lambda>urls. LogFound ''GitHub'' (length urls)" and loop=loop,
        OF c[unfolded github_candidates_def] g1 l] g2 sub
    by auto
qed

lemma stackoverflow_attempts:
  assumes "fst (stackoverflow_candidates pw ex w) = Inr urls"
  shows "gotos (events (scrape_stackoverflow_profiles pw query loc max_profiles ex w))
           = stackoverflow_search_url # py_take max_profiles urls \<and>
         (\<forall>ps. fst (scrape_stackoverflow_profiles pw query loc max_profiles ex w) = Inr ps \<longrightarrow>
               subseq (map profileUrl ps) (py_take max_profiles urls))"
proof -
  obtain w1 t1 where c: "stackoverflow_candidates pw ex w = (Inr urls, w1, t1)"
    using assms by (cases "stackoverflow_candidates pw ex w") auto
  have g1: "gotos t1 = [stackoverflow_search_url]"
    using postD[OF stackoverflow_candidates_gotos c] by simp
  define loop where
    "loop = (\<lambda>urls. for_each (stackoverflow_visit pw) 0 (py_take max_profiles urls) [])"
  obtain ps w2 t2 where l: "loop urls w1 = (ps, w2, t2)"
    by (cases "loop urls w1") auto
  have "post (loop urls)
          (\<lambda>r t. gotos t = py_take max_profiles urls \<and> list_all browsing t \<and>
                 (\<exists>new. r = [] @ new \<and> subseq (map profileUrl new) (py_take max_profiles urls) \<and>
                        named new))"
    unfolding loop_def by (rule for_each_post[OF stackoverflow_visit_post])
  from postD[OF this l] have g2: "gotos t2 = py_take max_profiles urls"
    and sub: "subseq (map profileUrl ps) (py_take max_profiles urls)"
    by auto
  have eq: "scrape_stackoverflow_profiles pw query loc max_profiles ex =
          scrape_with pw (LogError ''StackOverflow'') [''--no-sandbox'']
            (bind (bind (open_page pw) (\<lambda>_.
                   bind (ok (print (LogSearching ''StackOverflow'' stackoverflow_search_url))) (\<lambda>_.
                   bind (goto pw stackoverflow_search_url) (\<lambda>_.
                   stackoverflow_discover pw ex))))
               (\<lambda>urls. bind (ok (print (LogFound ''StackOverflow'' (length urls)))) (\<lambda>_. ok (loop urls))))"
    by (simp add: scrape_stackoverflow_profiles_def stackoverflow_work_def loop_def bind_assoc)
  show ?thesis
    unfolding eq
    using scrape_with_loop[where line="LogError ''StackOverflow''"
        and found="\<lambda>urls. LogFound ''StackOverflow'' (length urls)" and loop=loop,
        OF c[unfolded stackoverflow_candidates_def] g1 l] g2 sub
    by auto
qed

lemma behance_visits:
  assumes "fst (behance_candidates pw query loc ex w) = Inr urls"
  shows "\<exists>visits. gotos (events (scrape_behance_profiles pw query loc max_profiles ex w))
                    = behance_search_url query loc # visits \<and>
           prefix visits urls \<and>
           (\<forall>ps. fst (scrape_behance_profiles pw query loc max_profiles ex w) = Inr ps \<longrightarrow>
                 counted max_profiles urls visits ps)"
proof -
  obtain w1 t1 where c: "behance_candidates pw query loc ex w = (Inr urls, w1, t1)"
    using assms by (cases "behance_candidates pw query loc ex w") auto
  have g1: "gotos t1 = [behance_search_url query loc]"
    using postD[OF behance_candidates_gotos c] by simp
  define loop where
    "loop = (\<lambda>urls. until_scraped (behance_visit pw) max_profiles urls 0 [])"
  obtain ps w2 t2 where l: "loop urls w1 = (ps, w2, t2)"
    by (cases "loop urls w1") auto
  have "post (loop urls)
          (\<lambda>r t. \<exists>new. r = [] @ new \<and> prefix (gotos t) urls \<and>
                     subseq (map profileUrl new) (gotos t) \<and>
                     (0 + int (length new) < max_profiles \<longrightarrow> gotos t = urls) \<and>
                     (gotos t \<noteq> [] \<longrightarrow>
                        0 + int (length new) \<le> max_profiles \<and>
                        (0 + int (length new) = max_profiles \<longrightarrow>
                           new \<noteq> [] \<and> profileUrl (last new) = last (gotos t))))"
    unfolding loop_def by (rule until_scraped_counted[OF behance_visit_post])
  from postD[OF this l] have cnt: "counted max_profiles urls (gotos t2) ps"
    by (simp add: counted_def)
  have eq: "scrape_behance_profiles pw query loc max_profiles ex =
          scrape_with pw (LogScraperError ''Behance'') [''--no-sandbox'']
            (bind (bind (open_page pw) (\<lambda>_.
                   bind (ok (print (LogSearching ''Behance'' (behance_search_url query loc)))) (\<lambda>_.
                   bind (goto pw (behance_search_url query loc)) (\<lambda>_.
                   bind (scroll pw) (\<lambda>_.
                   behance_discover pw ex)))))
               (\<lambda>urls. bind (ok (print (LogFound ''Behance'' (length urls)))) (\<lambda>_. ok (loop urls))))"
    by (simp add: scrape_behance_profiles_def behance_work_def loop_def bind_assoc)
  show ?thesis
    unfolding eq
    apply (rule exI[of _ "gotos t2"])
    using scrape_with_loop[where line="LogScraperError ''Behance''"
        and found="\<lambda>urls. LogFound ''Behance'' (length urls)" and loop=loop,
        OF c[unfolded behance_candidates_def] g1 l] cnt
    by (auto simp: counted_def)
qed

lemma devto_visits:
  assumes "fst (devto_candidates pw ex w) = Inr urls"
  shows "\<exists>visits. gotos (events (scrape_devto_profiles pw query max_profiles ex w))
                    = devto_url # visits \<and>
           prefix visits urls \<and>
           (\<forall>ps. fst (scrape_devto_profiles pw query max_profiles ex w) = Inr ps \<longrightarrow>
                 counted max_profiles urls visits ps)"
proof -
  obtain w1 t1 where c: "devto_candidates pw ex w = (Inr urls, w1, t1)"
    using assms by (cases "devto_candidates pw ex w") auto
  have g1: "gotos t1 = [devto_url]"
    using postD[OF devto_candidates_gotos c] by simp
  define loop where
    "loop = (\<lambda>urls. until_scraped (devto_visit pw) max_profiles urls 0 [])"
  obtain ps w2 t2 where l: "loop urls w1 = (ps, w2, t2)"
    by (cases "loop urls w1") auto
  have "post (loop urls)
          (\<lambda>r t. \<exists>new. r = [] @ new \<and> prefix (gotos t) urls \<and>
                     subseq (map profileUrl new) (gotos t) \<and>
                     (0 + int (length new) < max_profiles \<longrightarrow> gotos t = urls) \<and>
                     (gotos t \<noteq> [] \<longrightarrow>
                        0 + int (length new) \<le> max_profiles \<and>
                        (0 + int (length new) = max_profiles \<longrightarrow>
                           new \<noteq> [] \<and> profileUrl (last new) = last (gotos t))))"
    unfolding loop_def by (rule until_scraped_counted[OF devto_visit_post])
  from postD[OF this l] have cnt: "counted max_profiles urls (gotos t2) ps"
    by (simp add: counted_def)
  have eq: "scrape_devto_profiles pw query max_profiles ex =
          scrape_with pw (LogError ''Dev.to'') [''--no-sandbox'']
            (bind (bind (open_page pw) (\<lambda>_.
                   bind (goto pw devto_url) (\<lambda>_.
                   bind (scroll pw) (\<lambda>_.
                   devto_discover pw ex))))
               (\<lambda>urls. bind (ok (print (LogFound ''Dev.to'' (length urls)))) (\<lambda>_. ok (loop urls))))"
    by (simp add: scrape_devto_profiles_def devto_work_def loop_def bind_assoc)
  show ?thesis
    unfolding eq
    apply (rule exI[of _ "gotos t2"])
    using scrape_with_loop[where line="LogError ''Dev.to''"
        and found="\<lambda>urls. LogFound ''Dev.to'' (length urls)" and loop=loop,
        OF c[unfolded devto_candidates_def] g1 l] cnt
    by (auto simp: counted_def)
qed

section \<open>The claims\<close>

subsection \<open>Claim C1\<close>

text \<open>
  Claim C1.  The scrape is meant never to raise, also when the \<open>browser.close()\<close> of the
  exception handler fails.  It does raise there: on a site whose search page does not load,
  with a browser whose \<open>close\<close> raises, the handler's \<open>close\<close> is the last call and its
  exception is the outcome of \<open>scrape_profiles\<close>.
\<close>

theorem handler_close_failure_reaches_caller:
  "scrape_profiles (stuck []) ''github'' ''fullstack'' ''India'' 10 [] blank =
     (Inl (Error ''Target closed''), blank,
      [Log (LogStart ''github'' ''fullstack'' ''India'' 10),
       Call Start True,
       Call (Launch [''--no-sandbox'', ''--disable-dev-shm-usage'']) True,
       Call (NewContext (USER_AGENTS ! 0)) True,
       Call NewPage True,
       Log (LogSearching ''GitHub'' (github_search_url ''fullstack'' ''India'')),
       Call (Goto (github_search_url ''fullstack'' ''India'')) False,
       Call Stop True,
       Log (LogScraperError ''GitHub'' (Error ''Timeout 20000ms exceeded'')),
       Call (Close InHandler) False])"
  by code_simp

subsection \<open>Claim C2\<close>

text \<open>
  Claim C2.  With \<open>max_profiles\<close> not negative, the list a scraper returns has at most
  \<open>max_profiles\<close> profiles: for each of the four scrapers and for the dispatcher, on every
  site and with any calls failing.
\<close>

theorem result_length_at_most_max_profiles:
  assumes "0 \<le> max_profiles"
  shows "(fst (scrape_github_profiles pw query loc max_profiles existing_urls w) = Inr ps
            \<longrightarrow> int (length ps) \<le> max_profiles) \<and>
         (fst (scrape_behance_profiles pw query loc max_profiles existing_urls w) = Inr ps
            \<longrightarrow> int (length ps) \<le> max_profiles) \<and>
         (fst (scrape_stackoverflow_profiles pw query loc max_profiles existing_urls w) = Inr ps
            \<longrightarrow> int (length ps) \<le> max_profiles) \<and>
         (fst (scrape_devto_profiles pw query max_profiles existing_urls w) = Inr ps
            \<longrightarrow> int (length ps) \<le> max_profiles) \<and>
         (fst (scrape_profiles pw platform query loc max_profiles existing_urls w) = Inr ps
            \<longrightarrow> int (length ps) \<le> max_profiles)"
  using assms by (intro conjI impI) (erule scrape_results[THEN final_length], assumption)+

lemma behance_run:
  "fst (scrape_behance_profiles (site behance_pages) ''fullstack'' ''India'' 1 [] blank) = Inr [bob]"
  by code_simp

text \<open>Behance, one profile asked for, the first page failing to load: the second is returned.\<close>

theorem result_length_at_most_max_profiles_witness:
  "(0::int) \<le> 1 \<and>
   fst (scrape_behance_profiles (site behance_pages) ''fullstack'' ''India'' 1 [] blank) = Inr [bob] \<and>
   int (length [bob]) \<le> 1"
  using result_length_at_most_max_profiles[of 1 "site behance_pages" "''fullstack''" "''India''" "[]" blank "[bob]"]
    behance_run
  by simp

subsection \<open>Claim C3\<close>

text \<open>
  Claim C3.  In a returned list no two profiles have the same \<open>profileUrl\<close>, and no
  \<open>profileUrl\<close> is among \<open>existing_urls\<close>.
\<close>

theorem profile_urls_distinct_and_new:
  "(fst (scrape_github_profiles pw query loc max_profiles existing_urls w) = Inr ps
      \<longrightarrow> distinct (map profileUrl ps) \<and> set (map profileUrl ps) \<inter> set existing_urls = {}) \<and>
   (fst (scrape_behance_profiles pw query loc max_profiles existing_urls w) = Inr ps
      \<longrightarrow> distinct (map profileUrl ps) \<and> set (map profileUrl ps) \<inter> set existing_urls = {}) \<and>
   (fst (scrape_stackoverflow_profiles pw query loc max_profiles existing_urls w) = Inr ps
      \<longrightarrow> distinct (map profileUrl ps) \<and> set (map profileUrl ps) \<inter> set existing_urls = {}) \<and>
   (fst (scrape_devto_profiles pw query max_profiles existing_urls w) = Inr ps
      \<longrightarrow> distinct (map profileUrl ps) \<and> set (map profileUrl ps) \<inter> set existing_urls = {}) \<and>
   (fst (scrape_profiles pw platform query loc max_profiles existing_urls w) = Inr ps
      \<longrightarrow> distinct (map profileUrl ps) \<and> set (map profileUrl ps) \<inter> set existing_urls = {})"
  by (intro conjI; rule impI; erule scrape_results[THEN final_urls])

lemma github_run:
  "fst (scrape_profiles (site github_pages) ''GitHub'' ''fullstack'' ''India'' 3
          [''https://github.com/alice''] blank) = Inr [github_bob, github_carol]"
  by code_simp

text \<open>GitHub with three users found, one of them known already.\<close>

theorem profile_urls_distinct_and_new_witness:
  "fst (scrape_profiles (site github_pages) ''GitHub'' ''fullstack'' ''India'' 3
          [''https://github.com/alice''] blank) = Inr [github_bob, github_carol] \<and>
   map profileUrl [github_bob, github_carol] = [''https://github.com/bob'', ''https://github.com/carol''] \<and>
   distinct (map profileUrl [github_bob, github_carol]) \<and>
   set (map profileUrl [github_bob, github_carol]) \<inter> set [''https://github.com/alice''] = {}"
  using profile_urls_distinct_and_new[of "site github_pages" "''fullstack''" "''India''" 3
      "[''https://github.com/alice'']" blank "[github_bob, github_carol]" "''GitHub''"]
    github_run
  by (simp add: github_bob_def github_carol_def)

subsection \<open>Claim C4\<close>

text \<open>
  Claim C4.  Every profile of a returned list has a \<open>fullName\<close> that is not empty: a
  profile whose name is still empty after the extractor ran is not appended.
\<close>

theorem emitted_profiles_are_named:
  "(fst (scrape_github_profiles pw query loc max_profiles existing_urls w) = Inr ps
      \<longrightarrow> (\<forall>p\<in>set ps. fullName p \<noteq> [])) \<and>
   (fst (scrape_behance_profiles pw query loc max_profiles existing_urls w) = Inr ps
      \<longrightarrow> (\<forall>p\<in>set ps. fullName p \<noteq> [])) \<and>
   (fst (scrape_stackoverflow_profiles pw query loc max_profiles existing_urls w) = Inr ps
      \<longrightarrow> (\<forall>p\<in>set ps. fullName p \<noteq> [])) \<and>
   (fst (scrape_devto_profiles pw query max_profiles existing_urls w) = Inr ps
      \<longrightarrow> (\<forall>p\<in>set ps. fullName p \<noteq> [])) \<and>
   (fst (scrape_profiles pw platform query loc max_profiles existing_urls w) = Inr ps
      \<longrightarrow> (\<forall>p\<in>set ps. fullName p \<noteq> []))"
  by (intro conjI impI) (erule scrape_results[THEN final_named])+

lemma devto_run:
  "fst (scrape_profiles (site devto_pages) ''devto'' ''fullstack'' ''India'' 5 [] blank) =
     Inr [\<lparr>fullName = ''Dave'', email = [], bio = [], location = ''Dave'',
           profileUrl = ''https://dev.to/dave'', skills = [], company = [], website = [],
           followers = 0, repos = 0, source = Some ''Dev.to''\<rparr>]"
  by code_simp

text \<open>Dev.to with one author.\<close>

theorem emitted_profiles_are_named_witness:
  "fst (scrape_profiles (site devto_pages) ''devto'' ''fullstack'' ''India'' 5 [] blank) =
     Inr [\<lparr>fullName = ''Dave'', email = [], bio = [], location = ''Dave'',
           profileUrl = ''https://dev.to/dave'', skills = [], company = [], website = [],
           followers = 0, repos = 0, source = Some ''Dev.to''\<rparr>] \<and>
   ''Dave'' \<noteq> []"
  using emitted_profiles_are_named[of "site devto_pages" "''fullstack''" "''India''" 5 "[]" blank _ "''devto''"]
    devto_run
  by simp

subsection \<open>Claim C5\<close>

text \<open>
  Claim C5, as amended.  \<open>released t\<close>: a run that launched the browser called
  \<open>browser.close()\<close> before it ended, once or twice, and a run that did not launch it
  never called it.  There are two such statements in a scraper, one behind the loop and
  one in the exception handler; the second runs after any exception in the \<open>try\<close>, also
  after one raised by the first or by leaving \<open>async with\<close>.
\<close>

theorem browser_closed_once_or_twice:
  "released (events (scrape_github_profiles pw query loc max_profiles existing_urls w)) \<and>
   released (events (scrape_behance_profiles pw query loc max_profiles existing_urls w)) \<and>
   released (events (scrape_stackoverflow_profiles pw query loc max_profiles existing_urls w)) \<and>
   released (events (scrape_devto_profiles pw query max_profiles existing_urls w)) \<and>
   released (events (scrape_profiles pw platform query loc max_profiles existing_urls w))"
  by (simp add: scrape_released events_scrape_profiles released_Log)
     (simp add: released_def launched_def)

lemma no_search_page_run:
  "Call (Launch [''--no-sandbox'']) True \<in>
     set (events (scrape_behance_profiles (site []) ''fullstack'' ''India'' 10 [] blank))"
  "closes (events (scrape_behance_profiles (site []) ''fullstack'' ''India'' 10 [] blank)) = [InHandler]"
  by code_simp+

text \<open>Behance with a search page that does not load: the handler closes the browser.\<close>

theorem browser_closed_once_or_twice_witness:
  "launched (events (scrape_behance_profiles (site []) ''fullstack'' ''India'' 10 [] blank)) \<and>
   closes (events (scrape_behance_profiles (site []) ''fullstack'' ''India'' 10 [] blank)) = [InHandler] \<and>
   released (events (scrape_behance_profiles (site []) ''fullstack'' ''India'' 10 [] blank))"
proof -
  have "launched (events (scrape_behance_profiles (site []) ''fullstack'' ''India'' 10 [] blank))"
    unfolding launched_def using no_search_page_run(1) by blast
  with no_search_page_run(2)
    browser_closed_once_or_twice[of "site []" "''fullstack''" "''India''" 10 "[]" blank]
  show ?thesis by blast
qed

text \<open>
  Claim C5 as stated fails: there is not one place of release.  With a browser whose
  \<open>close\<close> raises, the statement behind the loop runs, and then that of the handler.
\<close>

theorem two_places_close_the_browser:
  "closes (events (scrape_profiles (stuck github_pages) ''github'' ''fullstack'' ''India'' 1 [] blank))
     = [AfterLoop, InHandler]"
  by code_simp

subsection \<open>Claim C6\<close>

text \<open>
  Claim C6, as amended.  \<open>begins url t\<close>: if the run opened a page, its first navigation
  went to \<open>url\<close>, and otherwise it navigated nowhere.  The GitHub and the Behance scraper
  begin at a search URL built from \<open>query\<close> and \<open>loc\<close>, and two queries give the same URL
  only if they are the same.  The Stack Overflow scraper begins at the list of users by
  reputation and the Dev.to scraper at the home page: two fixed URLs, in which neither
  \<open>query\<close> nor \<open>loc\<close> occurs.
\<close>

theorem first_navigation:
  "(py_lower platform = ''github'' \<longrightarrow>
      begins (github_search_url query loc)
        (events (scrape_profiles pw platform query loc max_profiles existing_urls w))) \<and>
   (py_lower platform = ''behance'' \<longrightarrow>
      begins (behance_search_url query loc)
        (events (scrape_profiles pw platform query loc max_profiles existing_urls w))) \<and>
   (py_lower platform = ''stackoverflow'' \<longrightarrow>
      begins stackoverflow_search_url
        (events (scrape_profiles pw platform query loc max_profiles existing_urls w))) \<and>
   (py_lower platform = ''devto'' \<longrightarrow>
      begins devto_url
        (events (scrape_profiles pw platform query loc max_profiles existing_urls w))) \<and>
   (github_search_url q1 loc = github_search_url q2 loc \<longleftrightarrow> q1 = q2) \<and>
   (behance_search_url q1 loc = behance_search_url q2 loc \<longleftrightarrow> q1 = q2)"
  using github_search_url_inj[of q1 loc q2] behance_search_url_inj[of q1 loc q2]
  by (simp add: events_scrape_profiles begins_Log scrape_begins)

lemma github_gotos:
  "gotos (events (scrape_profiles (site github_pages) ''GitHub'' ''fullstack'' ''India'' 1 [] blank))
     = [github_search_url ''fullstack'' ''India'', ''https://github.com/alice'']"
  "Call NewPage True \<in> set (events (scrape_profiles (site github_pages) ''GitHub'' ''fullstack'' ''India'' 1 [] blank))"
  "py_lower ''GitHub'' = ''github''"
  by code_simp+

text \<open>GitHub, \<open>fullstack\<close> in \<open>India\<close>.\<close>

theorem first_navigation_witness:
  "py_lower ''GitHub'' = ''github'' \<and>
   begins (github_search_url ''fullstack'' ''India'')
     (events (scrape_profiles (site github_pages) ''GitHub'' ''fullstack'' ''India'' 1 [] blank)) \<and>
   gotos (events (scrape_profiles (site github_pages) ''GitHub'' ''fullstack'' ''India'' 1 [] blank))
     = [github_search_url ''fullstack'' ''India'', ''https://github.com/alice'']"
  using first_navigation[of "''GitHub''" "''fullstack''" "''India''" "site github_pages" 1 "[]" blank]
    github_gotos
  by blast

lemma so_gotos:
  "gotos (events (scrape_profiles (site stackoverflow_pages) ''stackoverflow'' q ''India'' 10 [] blank))
     = [stackoverflow_search_url]"
  by code_simp

lemma devto_gotos:
  "gotos (events (scrape_profiles (site devto_pages) ''devto'' q ''India'' 10 [] blank))
     = [devto_url, ''https://dev.to/dave'']"
  by code_simp

text \<open>
  Claim C6 as stated fails: on Stack Overflow and on Dev.to no two queries lead to
  different navigations.
\<close>

theorem query_ignored_by_stackoverflow_and_devto:
  "\<not> (\<exists>q1 q2. q1 \<noteq> q2 \<and>
         gotos (events (scrape_profiles (site stackoverflow_pages) ''stackoverflow'' q1 ''India'' 10 [] blank)) \<noteq>
         gotos (events (scrape_profiles (site stackoverflow_pages) ''stackoverflow'' q2 ''India'' 10 [] blank))) \<and>
   \<not> (\<exists>q1 q2. q1 \<noteq> q2 \<and>
         gotos (events (scrape_profiles (site devto_pages) ''devto'' q1 ''India'' 10 [] blank)) \<noteq>
         gotos (events (scrape_profiles (site devto_pages) ''devto'' q2 ''India'' 10 [] blank)))"
  by (simp only: so_gotos devto_gotos) simp

subsection \<open>Claim C7\<close>

text \<open>
  Claim C7, as amended.  The four extractors differ.  GitHub: no skill twice, none empty,
  and no cap; on a page that answers alike each time (\<open>steady\<close>), the skills are the
  stripped non-empty texts of all the elements found (\<open>shown\<close>), each once, in the order
  of the page.  Stack Overflow: the same of the first 15 elements, so at most 15.
  Behance: of the first 10 elements the stripped texts that are not empty and shorter
  than 50, in the order of the page; at most 10.  Dev.to: no skills at all.
\<close>

theorem skills_of_each_extractor:
  "(distinct (skills (fst (extract_github_profile pw url w))) \<and>
    [] \<notin> set (skills (fst (extract_github_profile pw url w))) \<and>
    (steady pw label els \<longrightarrow>
       set (skills (fst (extract_github_profile pw url w))) = set (shown label els) \<and>
       subseq (skills (fst (extract_github_profile pw url w))) (shown label els))) \<and>
   (distinct (skills (fst (extract_stackoverflow_profile pw url w))) \<and>
    [] \<notin> set (skills (fst (extract_stackoverflow_profile pw url w))) \<and>
    length (skills (fst (extract_stackoverflow_profile pw url w))) \<le> 15 \<and>
    (steady pw label els \<longrightarrow>
       set (skills (fst (extract_stackoverflow_profile pw url w))) = set (shown label (take 15 els)) \<and>
       subseq (skills (fst (extract_stackoverflow_profile pw url w))) (shown label (take 15 els)))) \<and>
   (length (skills (fst (extract_behance_profile pw url w))) \<le> 10 \<and>
    (steady pw label els \<longrightarrow>
       skills (fst (extract_behance_profile pw url w)) =
         filter (\<lambda>s. s \<noteq> [] \<and> length s < 50) (map (\<lambda>el. py_strip (label el)) (take 10 els)))) \<and>
   skills (fst (extract_devto_profile pw url w)) = []"
proof -
  note g = post_run[OF extract_github_profile_post, of pw url w]
  note s = post_run[OF extract_stackoverflow_profile_post, of pw url w]
  note b = post_run[OF extract_behance_profile_post, of pw url w]
  note d = post_run[OF extract_devto_profile_post, of pw url w]
  note gs = post_run[OF extract_github_profile_steady, of pw label els url w]
  note ss = post_run[OF extract_stackoverflow_profile_steady, of pw label els url w]
  note bs = post_run[OF extract_behance_profile_steady, of pw label els url w]
  from g s b d gs ss bs show ?thesis by blast
qed

lemma steady_still: "steady (still h els) (\<lambda>el. el) els"
  by (simp add: steady_def still_def)

lemma still_runs:
  "skills (fst (extract_github_profile (still None languages) ''https://github.com/ann'' ()))
     = [''Go'', ''Rust'', ''C'']"
  "shown (\<lambda>el. el) languages = [''Go'', ''Rust'', ''Go'', ''C'']"
  by code_simp+

text \<open>A GitHub page with five language badges, one twice, one blank.\<close>

theorem skills_of_each_extractor_witness:
  "steady (still None languages) (\<lambda>el. el) languages \<and>
   skills (fst (extract_github_profile (still None languages) ''https://github.com/ann'' ()))
     = [''Go'', ''Rust'', ''C''] \<and>
   subseq [''Go'', ''Rust'', ''C''] [''Go'', ''Rust'', ''Go'', ''C'']"
proof -
  have st: "steady (still None languages) (\<lambda>el. el) languages"
    by (rule steady_still)
  from skills_of_each_extractor[of "still None languages" "''https://github.com/ann''" "()"
      "\<lambda>el. el" languages] st
  have "subseq (skills (fst (extract_github_profile (still None languages) ''https://github.com/ann'' ())))
          (shown (\<lambda>el. el) languages)"
    by blast
  with st still_runs show ?thesis
    by (simp only: simp_thms)
qed

text \<open>
  Claim C7 as stated fails: the Dev.to extractor asks for no list of elements and leaves
  \<open>skills\<close> empty on a page that has tags; the GitHub extractor takes all of 16
  languages; the Behance extractor keeps a skill that the page shows twice.
\<close>

theorem skills_not_uniform:
  "skills (fst (extract_devto_profile (still (Some ''Dave'') [''css'', ''html''])
                  ''https://dev.to/dave'' ())) = [] \<and>
   query_alls (events (extract_devto_profile (still (Some ''Dave'') [''css'', ''html''])
                  ''https://dev.to/dave'' ())) = [] \<and>
   skills (fst (extract_github_profile (still None sixteen) ''https://github.com/ann'' ())) = sixteen \<and>
   length sixteen = 16 \<and>
   skills (fst (extract_behance_profile (still (Some ''Bob'') [''Design'', ''Design''])
                  ''https://www.behance.net/bob'' ())) = [''Design'', ''Design'']"
  by code_simp

subsection \<open>Claim C8\<close>

text \<open>
  Claim C8, as amended.  \<open>scans t\<close> counts the reads of the page markup.  GitHub: the
  markup is read, once, exactly when the selectors gave fewer than 3 URLs; with 3 or more
  the result is theirs; otherwise their URLs come first, and every URL added has one path
  segment of at least 2 characters from \<open>[a-zA-Z0-9_-]\<close> that is not on GitHub's skip
  list (\<open>github_profile_path\<close>).  Behance: the markup is read once on every run, there
  being no selector, and every URL found has one path segment of at least 3 such
  characters that is not on Behance's skip list and does not start with \<open>gallery\<close>.
  Stack Overflow and Dev.to: discovery never reads the markup, however few URLs the
  selector gave.
\<close>

theorem markup_scan_per_platform:
  "(scans (events (github_discover pw existing_urls w)) =
      (if length (fst (github_selectors pw existing_urls github_selector_list [] w)) < 3 then 1 else 0) \<and>
    (3 \<le> length (fst (github_selectors pw existing_urls github_selector_list [] w)) \<longrightarrow>
       fst (github_discover pw existing_urls w) =
         Inr (fst (github_selectors pw existing_urls github_selector_list [] w))) \<and>
    (\<forall>found. fst (github_discover pw existing_urls w) = Inr found \<longrightarrow>
       prefix (fst (github_selectors pw existing_urls github_selector_list [] w)) found \<and>
       (\<forall>u\<in>set found - set (fst (github_selectors pw existing_urls github_selector_list [] w)).
          github_profile_path u))) \<and>
   (scans (events (behance_discover pw existing_urls w)) = 1 \<and>
    (\<forall>found. fst (behance_discover pw existing_urls w) = Inr found \<longrightarrow>
       (\<forall>u\<in>set found. behance_profile_path u))) \<and>
   scans (events (stackoverflow_discover pw existing_urls w)) = 0 \<and>
   scans (events (devto_discover pw existing_urls w)) = 0"
proof -
  obtain urls w1 t1 where sel: "github_selectors pw existing_urls github_selector_list [] w = (urls, w1, t1)"
    by (cases "github_selectors pw existing_urls github_selector_list [] w") auto
  from github_discover_scan[OF sel] sel behance_discover_scan[of pw existing_urls w]
    selector_only_discover[of pw existing_urls w]
  show ?thesis by simp
qed

lemma sparse_run:
  "fst (github_selectors (site []) [] github_selector_list [] sparse) = [''https://github.com/alice'']"
  "fst (github_discover (site []) [] sparse) = Inr [''https://github.com/alice'', ''https://github.com/bob'']"
  "scans (events (github_discover (site []) [] sparse)) = 1"
  by code_simp+

text \<open>
  A GitHub result page where the selectors find one user: the markup is read, \<open>/bob\<close>
  is added, \<open>/settings\<close> and \<open>/x\<close> are not.
\<close>

theorem markup_scan_per_platform_witness:
  "fst (github_selectors (site []) [] github_selector_list [] sparse) = [''https://github.com/alice''] \<and>
   fst (github_discover (site []) [] sparse) = Inr [''https://github.com/alice'', ''https://github.com/bob''] \<and>
   scans (events (github_discover (site []) [] sparse)) = 1 \<and>
   github_profile_path ''https://github.com/bob''"
proof -
  from markup_scan_per_platform[of "site []" "[]" sparse]
  have "\<forall>found. fst (github_discover (site []) [] sparse) = Inr found \<longrightarrow>
          (\<forall>u\<in>set found - set (fst (github_selectors (site []) [] github_selector_list [] sparse)).
             github_profile_path u)"
    by blast
  then have "\<forall>u\<in>set [''https://github.com/alice'', ''https://github.com/bob'']
                 - set [''https://github.com/alice'']. github_profile_path u"
    unfolding sparse_run by blast
  then have "github_profile_path ''https://github.com/bob''"
    by simp
  with sparse_run show ?thesis
    by (simp only: simp_thms)
qed

text \<open>
  Claim C8 as stated fails: on Stack Overflow the selector finds no profile, and the run
  ends without a read of the markup.
\<close>

theorem stackoverflow_never_scans:
  "Log (LogFound ''StackOverflow'' 0) \<in>
     set (events (scrape_profiles (site stackoverflow_pages) ''stackoverflow'' ''fullstack'' ''India'' 10 [] blank)) \<and>
   scans (events (scrape_profiles (site stackoverflow_pages) ''stackoverflow'' ''fullstack'' ''India'' 10 [] blank)) = 0"
  by code_simp

subsection \<open>Claim C9\<close>



subsection \<open>Claim C10\<close>

text \<open>
  Claim C10.  The cap counts differently.  Let \<open>urls\<close> be the candidates that discovery
  gives a scraper.  The GitHub and the Stack Overflow scraper navigate, behind the search
  page, to each of the first \<open>max_profiles\<close> candidates once, in order, and to no other,
  whatever becomes of a navigation or of the profile read: a failed candidate uses up one
  of the places, and the profiles returned are among these.  The Behance and the Dev.to
  scraper navigate along the candidates from the first, so that behind a failed candidate
  the next one is tried.  A run that returns stopped before the end of the list only with
  no fewer than \<open>max_profiles\<close> profiles collected, and then at once: having navigated
  at all it returns at most \<open>max_profiles\<close> profiles, and with exactly that many the last
  navigation is the one that gave the last profile.
\<close>

theorem cap_counts_attempts_or_profiles:
  "(fst (github_candidates pw query loc ex w) = Inr urls \<longrightarrow>
      gotos (events (scrape_github_profiles pw query loc max_profiles ex w))
        = github_search_url query loc # py_take max_profiles urls \<and>
      (\<forall>ps. fst (scrape_github_profiles pw query loc max_profiles ex w) = Inr ps \<longrightarrow>
            subseq (map profileUrl ps) (py_take max_profiles urls))) \<and>
   (fst (stackoverflow_candidates pw ex w) = Inr urls \<longrightarrow>
      gotos (events (scrape_stackoverflow_profiles pw query loc max_profiles ex w))
        = stackoverflow_search_url # py_take max_profiles urls \<and>
      (\<forall>ps. fst (scrape_stackoverflow_profiles pw query loc max_profiles ex w) = Inr ps \<longrightarrow>
            subseq (map profileUrl ps) (py_take max_profiles urls))) \<and>
   (fst (behance_candidates pw query loc ex w) = Inr urls \<longrightarrow>
      (\<exists>visits. gotos (events (scrape_behance_profiles pw query loc max_profiles ex w))
                  = behance_search_url query loc # visits \<and>
         prefix visits urls \<and>
         (\<forall>ps. fst (scrape_behance_profiles pw query loc max_profiles ex w) = Inr ps \<longrightarrow>
               counted max_profiles urls visits ps))) \<and>
   (fst (devto_candidates pw ex w) = Inr urls \<longrightarrow>
      (\<exists>visits. gotos (events (scrape_devto_profiles pw query max_profiles ex w))
                  = devto_url # visits \<and>
         prefix visits urls \<and>
         (\<forall>ps. fst (scrape_devto_profiles pw query max_profiles ex w) = Inr ps \<longrightarrow>
               counted max_profiles urls visits ps)))"
proof -
  note g = github_attempts[of pw query loc ex w urls max_profiles]
  note s = stackoverflow_attempts[of pw ex w urls query loc max_profiles]
  note b = behance_visits[of pw query loc ex w urls max_profiles]
  note d = devto_visits[of pw ex w urls query max_profiles]
  show ?thesis
    by (rule conjI[OF impI[OF g] conjI[OF impI[OF s] conjI[OF impI[OF b] impI[OF d]]]])
qed

lemma candidates_runs:
  "fst (github_candidates (site github_pages) ''fullstack'' ''India'' [] blank) = Inr three_github"
  "fst (behance_candidates (site behance_pages) ''fullstack'' ''India'' [] blank) = Inr three_behance"
  "fst (stackoverflow_candidates (site stackoverflow_pages) [] blank) = Inr []"
  "fst (devto_candidates (site devto_pages) [] blank) = Inr [''https://dev.to/dave'']"
  by code_simp+

lemma capped_runs:
  "fst (scrape_github_profiles (site github_pages) ''fullstack'' ''India'' 1 [] blank) = Inr []"
  "fst (scrape_behance_profiles (site behance_pages) ''fullstack'' ''India'' 1 [] blank) = Inr [bob]"
  "gotos (events (scrape_behance_profiles (site behance_pages) ''fullstack'' ''India'' 1 [] blank))
     = [behance_search_url ''fullstack'' ''India'', ''https://www.behance.net/alice'',
        ''https://www.behance.net/bob'']"
  "gotos (events (scrape_devto_profiles (site devto_pages) ''fullstack'' 1 [] blank))
     = [devto_url, ''https://dev.to/dave'']"
  "fst (scrape_devto_profiles (site devto_pages) ''fullstack'' 1 [] blank) =
     Inr [\<lparr>fullName = ''Dave'', email = [], bio = [], location = ''Dave'',
           profileUrl = ''https://dev.to/dave'', skills = [], company = [], website = [],
           followers = 0, repos = 0, source = Some ''Dev.to''\<rparr>]"
  by code_simp+

lemma first_of_three:
  "py_take 1 three_github = [''https://github.com/alice'']"
  "py_take 1 ([] :: string list) = []"
  by code_simp+

text \<open>
  Three candidates, the first page failing to load, one profile asked for: GitHub tries
  the first and returns nothing, Behance goes on to the second and returns it.  Stack
  Overflow with no candidate, Dev.to with one.
\<close>

theorem cap_counts_attempts_or_profiles_witness:
  "fst (github_candidates (site github_pages) ''fullstack'' ''India'' [] blank) = Inr three_github \<and>
   gotos (events (scrape_github_profiles (site github_pages) ''fullstack'' ''India'' 1 [] blank))
     = [github_search_url ''fullstack'' ''India'', ''https://github.com/alice''] \<and>
   fst (scrape_github_profiles (site github_pages) ''fullstack'' ''India'' 1 [] blank) = Inr [] \<and>
   fst (stackoverflow_candidates (site stackoverflow_pages) [] blank) = Inr [] \<and>
   gotos (events (scrape_stackoverflow_profiles (site stackoverflow_pages) ''fullstack'' ''India'' 1 [] blank))
     = [stackoverflow_search_url] \<and>
   fst (behance_candidates (site behance_pages) ''fullstack'' ''India'' [] blank) = Inr three_behance \<and>
   gotos (events (scrape_behance_profiles (site behance_pages) ''fullstack'' ''India'' 1 [] blank))
     = [behance_search_url ''fullstack'' ''India'', ''https://www.behance.net/alice'',
        ''https://www.behance.net/bob''] \<and>
   fst (scrape_behance_profiles (site behance_pages) ''fullstack'' ''India'' 1 [] blank) = Inr [bob] \<and>
   counted 1 three_behance [''https://www.behance.net/alice'', ''https://www.behance.net/bob''] [bob] \<and>
   fst (devto_candidates (site devto_pages) [] blank) = Inr [''https://dev.to/dave''] \<and>
   gotos (events (scrape_devto_profiles (site devto_pages) ''fullstack'' 1 [] blank))
     = [devto_url, ''https://dev.to/dave''] \<and>
   (\<exists>ps. fst (scrape_devto_profiles (site devto_pages) ''fullstack'' 1 [] blank) = Inr ps \<and>
         counted 1 [''https://dev.to/dave''] [''https://dev.to/dave''] ps)"
proof -
  from cap_counts_attempts_or_profiles[of "site github_pages" "''fullstack''" "''India''" "[]" blank
         three_github 1]
  have g: "gotos (events (scrape_github_profiles (site github_pages) ''fullstack'' ''India'' 1 [] blank))
             = github_search_url ''fullstack'' ''India'' # py_take 1 three_github"
    using candidates_runs(1) by blast
  from cap_counts_attempts_or_profiles[of "site stackoverflow_pages" "''fullstack''" "''India''" "[]" blank
         "[]" 1]
  have s: "gotos (events (scrape_stackoverflow_profiles (site stackoverflow_pages) ''fullstack'' ''India'' 1 [] blank))
             = stackoverflow_search_url # py_take 1 []"
    using candidates_runs(3) by blast
  from cap_counts_attempts_or_profiles[of "site behance_pages" "''fullstack''" "''India''" "[]" blank
         three_behance 1]
  obtain visits where
    v: "gotos (events (scrape_behance_profiles (site behance_pages) ''fullstack'' ''India'' 1 [] blank))
          = behance_search_url ''fullstack'' ''India'' # visits"
    and c: "counted 1 three_behance visits [bob]"
    using candidates_runs(2) capped_runs(2) by blast
  from v have v': "visits = [''https://www.behance.net/alice'', ''https://www.behance.net/bob'']"
    unfolding capped_runs(3) by (simp only: list.inject simp_thms)
  from cap_counts_attempts_or_profiles[of "site devto_pages" "''fullstack''" "''India''" "[]" blank
         "[''https://dev.to/dave'']" 1]
  obtain seen where
    dv: "gotos (events (scrape_devto_profiles (site devto_pages) ''fullstack'' 1 [] blank))
          = devto_url # seen"
    and dc: "\<forall>ps. fst (scrape_devto_profiles (site devto_pages) ''fullstack'' 1 [] blank) = Inr ps \<longrightarrow>
               counted 1 [''https://dev.to/dave''] seen ps"
    using candidates_runs(4) by blast
  from dv have dv': "seen = [''https://dev.to/dave'']"
    unfolding capped_runs(4) by (simp only: list.inject simp_thms)
  have d: "\<exists>ps. fst (scrape_devto_profiles (site devto_pages) ''fullstack'' 1 [] blank) = Inr ps \<and>
         counted 1 [''https://dev.to/dave''] [''https://dev.to/dave''] ps"
    using dc capped_runs(5) unfolding dv' by blast
  from g[unfolded first_of_three] s[unfolded first_of_three] c[unfolded v'] d
    candidates_runs capped_runs
  show ?thesis
    by (simp only: simp_thms)
qed

end
